theory Spec2Isabelle
  imports Main "HOL-Library.Multiset" "HOL-Library.Sublist"
begin

section \<open>The npm feed of package-feeds: data model\<close>

text \<open>
  The development embeds \<^verbatim>\<open>feeds/npm/npm.go\<close>. Everything the Go code obtains from
  outside the process is collected in one record, the environment of a call to
  \<^verbatim>\<open>Feed.Latest\<close>: what the registry answers, how \<^verbatim>\<open>time.Parse\<close> reads a string
  and how much spare capacity \<^verbatim>\<open>append\<close> leaves in a slice. The order in which
  the goroutines deliver their single message is a further argument of the two
  aggregation functions.

  A \<^verbatim>\<open>time.Time\<close> is its instant on the time line, an integer; \<^verbatim>\<open>Before\<close> is \<open><\<close>.
\<close>

type_synonym time = int

subsection \<open>Errors\<close>

text \<open>
  The three sentinels are values of their own, since \<^verbatim>\<open>errors.Is\<close> recognises them by
  identity. \<open>Foreign\<close> is an error made by a library (net/http, io, encoding/json, time,
  utils), known by its message only: such an error is never one of the sentinels of this
  package, two of which are not even exported. \<open>Errorf p e s\<close> is \<^verbatim>\<open>fmt.Errorf\<close> with
  one \<^verbatim>\<open>%w\<close> verb: the text before the wrapped error, the wrapped error, the text after
  it.
\<close>

type_synonym library_error = string

datatype error =
    ErrJSON
  | ErrUnpublished
  | ErrNoPackagesPolled
  | Foreign string
  | Errorf string error string
  | PackagePollError string error

text \<open>
  Modelled from the spec: the messages of \<^verbatim>\<open>feeds.ErrNoPackagesPolled\<close> and of
  \<^verbatim>\<open>feeds.PackagePollError\<close>, both declared in package \<^verbatim>\<open>feeds\<close>, which is not among the
  sources. The spec calls the first "no packages polled" and says of the second that
  its message contains the failing package's name and the failure cause; the words
  around the two are immaterial here. The other equations are the source's:
  \<^verbatim>\<open>errors.New\<close> with its text, and \<^verbatim>\<open>fmt.Errorf\<close> substituting the wrapped error's message.
\<close>

fun Error :: "error \<Rightarrow> string" where
  "Error ErrJSON = ''error unmarshaling json response internally''"
| "Error ErrUnpublished = ''package is currently unpublished''"
| "Error ErrNoPackagesPolled = ''no packages polled''"
| "Error (Foreign m) = m"
| "Error (Errorf p e s) = p @ Error e @ s"
| "Error (PackagePollError n e) = ''Polling for package '' @ n @ '' returned error: '' @ Error e"

text \<open>
  \<^verbatim>\<open>errors.Is\<close> follows the chain of \<^verbatim>\<open>Unwrap\<close>. A \<^verbatim>\<open>PackagePollError\<close> is compared as
  a whole: the code wraps an error in one only when that error is not
  \<^verbatim>\<open>errUnpublished\<close>, so an \<^verbatim>\<open>Unwrap\<close> method would not change any answer below.
\<close>

fun errors_Is :: "error \<Rightarrow> error \<Rightarrow> bool" where
  "errors_Is (Errorf p e s) target = (Errorf p e s = target \<or> errors_Is e target)"
| "errors_Is e target = (e = target)"

definition strings_Contains :: "string \<Rightarrow> string \<Rightarrow> bool" where
  "strings_Contains s substr = sublist substr s"

subsection \<open>Panics and results\<close>

datatype panic = TypeAssertion | SliceBounds | NilDereference

datatype 'a outcome = Returns 'a | Panics panic

subsection \<open>Documents and packages\<close>

text \<open>
  What \<^verbatim>\<open>json.Unmarshal\<close> stores in an \<^verbatim>\<open>interface{}\<close>. An object is a Go map; it is
  kept as an association list whose order is the order in which \<^verbatim>\<open>range\<close> visits the
  entries in this run. The payload of a number is never inspected.
\<close>

datatype json =
    JNull
  | JBool bool
  | JNumber int
  | JString string
  | JArray "json list"
  | JObject "(string \<times> json) list"

record Package =
  Title :: string
  CreatedDate :: time
  Version :: string
  Unpublished :: bool

datatype PackageEvent = PackageEvent (event_Title: string)

text \<open>
  Modelled from the spec: \<^verbatim>\<open>feeds.Package\<close>, the ReleaseEvent of the spec (package
  name, version identifier, publish timestamp, source-feed tag), and its constructor
  \<^verbatim>\<open>feeds.NewPackage\<close>; package \<^verbatim>\<open>feeds\<close> is not among the sources.
\<close>

record feeds_Package =
  Name :: string
  feeds_Version :: string
  feeds_CreatedDate :: time
  Type :: string

definition NewPackage :: "time \<Rightarrow> string \<Rightarrow> string \<Rightarrow> string \<Rightarrow> feeds_Package" where
  "NewPackage created name version feed =
     \<lparr>Name = name, feeds_Version = version, feeds_CreatedDate = created, Type = feed\<rparr>"

definition FeedName :: string where
  "FeedName = ''npm''"

subsection \<open>The environment of one call\<close>

text \<open>
  The points at which \<^verbatim>\<open>fetchPackageEvents\<close> and \<^verbatim>\<open>fetchPackage\<close> can leave early, each
  with the message of the error the library hands over, and the decoded document
  otherwise.
\<close>

datatype rss_response =
    RssJoinFails library_error
  | RssGetFails library_error
  | RssBadStatus library_error
  | RssDecodeFails library_error
  | RssDocument "PackageEvent list"

datatype pkg_response =
    JoinFails library_error
  | GetFails library_error
  | BadStatus library_error
  | ReadFails library_error
  | UnmarshalFails library_error
  | Document "(string \<times> json) list"

record env =
  rss :: rss_response
  registry :: "string \<Rightarrow> pkg_response"
  time_Parse :: "string \<Rightarrow> library_error + time"
  spare :: "nat \<Rightarrow> nat"

record Feed =
  packages :: "string list option"
  baseURL :: string

section \<open>The functions of npm.go\<close>

subsection \<open>sort.SliceStable\<close>

text \<open>
  A stable sort by the comparison \<open>lessFn\<close>: an element is placed behind the
  elements that are less and in front of the first that is not, so that elements
  neither of which is less than the other keep their order.
\<close>

fun insertStable :: "('a \<Rightarrow> 'a \<Rightarrow> bool) \<Rightarrow> 'a \<Rightarrow> 'a list \<Rightarrow> 'a list" where
  "insertStable lessFn x [] = [x]"
| "insertStable lessFn x (y # ys) =
     (if lessFn y x then y # insertStable lessFn x ys else x # y # ys)"

definition SliceStable :: "('a \<Rightarrow> 'a \<Rightarrow> bool) \<Rightarrow> 'a list \<Rightarrow> 'a list" where
  "SliceStable lessFn xs = foldr (insertStable lessFn) xs []"

subsection \<open>fetchPackageEvents\<close>

definition fetchPackageEvents :: "env \<Rightarrow> error + PackageEvent list" where
  "fetchPackageEvents w =
     (case rss w of
        RssJoinFails err \<Rightarrow> Inl (Foreign err)
      | RssGetFails err \<Rightarrow> Inl (Foreign err)
      | RssBadStatus err \<Rightarrow>
          Inl (Errorf ''failed to fetch npm package data: '' (Foreign err) [])
      | RssDecodeFails err \<Rightarrow> Inl (Foreign err)
      | RssDocument events \<Rightarrow> Inr events)"

subsection \<open>fetchPackage\<close>

definition delete :: "string \<Rightarrow> (string \<times> json) list \<Rightarrow> (string \<times> json) list" where
  "delete k m = filter (\<lambda>entry. fst entry \<noteq> k) m"

text \<open>
  The loop over the entries of \<open>versions\<close>. The type assertion \<^verbatim>\<open>timestamp.(string)\<close>
  has no second result, so a value that is not a string panics; a string that
  \<^verbatim>\<open>time.Parse\<close> rejects makes the function return that error.
\<close>

fun versionLoop ::
  "(string \<Rightarrow> library_error + time) \<Rightarrow> string \<Rightarrow> (string \<times> json) list \<Rightarrow> Package list
     \<Rightarrow> (error + Package list) outcome" where
  "versionLoop parse pkgTitle [] versionSlice = Returns (Inr versionSlice)"
| "versionLoop parse pkgTitle ((version, JString timestamp) # rest) versionSlice =
     (case parse timestamp of
        Inl err \<Rightarrow> Returns (Inl (Foreign err))
      | Inr date \<Rightarrow>
          versionLoop parse pkgTitle rest
            (versionSlice @
               [\<lparr>Title = pkgTitle, CreatedDate = date, Version = version, Unpublished = False\<rparr>]))"
| "versionLoop parse pkgTitle ((version, timestamp) # rest) versionSlice = Panics TypeAssertion"

definition timeNotFound :: "string \<Rightarrow> error" where
  "timeNotFound pkgTitle =
     Errorf [] ErrJSON ('' : '' @ [CHR 0x27] @ ''time'' @ [CHR 0x27] @ '' not found for package ''
                          @ pkgTitle @ '' '')"

definition fetchPackage :: "env \<Rightarrow> string \<Rightarrow> (error + Package list) outcome" where
  "fetchPackage w pkgTitle =
     (case registry w pkgTitle of
        JoinFails err \<Rightarrow> Returns (Inl (Foreign err))
      | GetFails err \<Rightarrow> Returns (Inl (Foreign err))
      | BadStatus err \<Rightarrow>
          Returns (Inl (Errorf ''failed to fetch npm package version data: '' (Foreign err) []))
      | ReadFails err \<Rightarrow> Returns (Inl (Foreign err))
      | UnmarshalFails err \<Rightarrow>
          Returns (Inl (Errorf [] ErrJSON
                          ('' : '' @ Error (Foreign err) @ '' for package '' @ pkgTitle)))
      | Document jsonMap \<Rightarrow>
          (case map_of jsonMap ''time'' of
             Some (JObject versions) \<Rightarrow>
               if map_of versions ''unpublished'' \<noteq> None
               then Returns (Inl (Errorf (pkgTitle @ '' '') ErrUnpublished []))
               else
                 (case versionLoop (time_Parse w) pkgTitle
                         (delete ''modified'' (delete ''created'' versions)) [] of
                    Returns (Inr versionSlice) \<Rightarrow>
                      Returns (Inr (SliceStable (\<lambda>a b. CreatedDate b < CreatedDate a)
                                      versionSlice))
                  | Returns (Inl err) \<Rightarrow> Returns (Inl err)
                  | Panics p \<Rightarrow> Panics p)
           | _ \<Rightarrow> Returns (Inl (timeNotFound pkgTitle))))"

subsection \<open>The messages of the two channels and the receiving loop\<close>

text \<open>
  A slice of \<^verbatim>\<open>*Package\<close> holds pointers: \<open>Some\<close> of a package, or nil. The slice
  expression \<^verbatim>\<open>s[:high]\<close> is checked against the capacity of \<open>s\<close>, not its length; the
  elements between length and capacity are the nil pointers of the array that
  \<^verbatim>\<open>append\<close> allocated. The capacity of a slice grown by \<^verbatim>\<open>append\<close> to \<open>n\<close> elements is
  \<open>n + spare w n\<close>.
\<close>

datatype message = FromPackageChannel "Package option list" | FromErrChannel error

definition slicePrefix :: "nat \<Rightarrow> Package list \<Rightarrow> nat \<Rightarrow> Package option list outcome" where
  "slicePrefix capacity s high =
     (if high \<le> capacity
      then Returns (map Some (take high s) @ replicate (high - length s) None)
      else Panics SliceBounds)"

text \<open>The body of \<^verbatim>\<open>for _, pkg := range npmPkgs\<close>; reading a field of a nil pointer panics.\<close>

fun appendPackages :: "feeds_Package list \<Rightarrow> Package option list \<Rightarrow> feeds_Package list outcome" where
  "appendPackages pkgs [] = Returns pkgs"
| "appendPackages pkgs (Some pkg # rest) =
     appendPackages (pkgs @ [NewPackage (CreatedDate pkg) (Title pkg) (Version pkg) FeedName]) rest"
| "appendPackages pkgs (None # rest) = Panics NilDereference"

subsection \<open>fetchAllPackages\<close>

definition lookup0 :: "(string \<rightharpoonup> nat) \<Rightarrow> string \<Rightarrow> nat" where
  "lookup0 m k = (case m k of None \<Rightarrow> 0 | Some c \<Rightarrow> c)"

definition uniquePackages :: "PackageEvent list \<Rightarrow> (string \<rightharpoonup> nat)" where
  "uniquePackages packageEvents =
     fold (\<lambda>pkg m. m(event_Title pkg \<mapsto> lookup0 m (event_Title pkg) + 1)) packageEvents Map.empty"

text \<open>
  The goroutine started for one key of \<open>uniquePackages\<close>, up to its send or panic;
  \<open>mentions\<close> is the goroutine's parameter \<^verbatim>\<open>count\<close>.
\<close>

definition discoveryTask :: "env \<Rightarrow> string \<Rightarrow> nat \<Rightarrow> message outcome" where
  "discoveryTask w pkgTitle mentions =
     (case fetchPackage w pkgTitle of
        Panics p \<Rightarrow> Panics p
      | Returns (Inl err) \<Rightarrow>
          Returns (FromErrChannel
            (if \<not> errors_Is err ErrUnpublished then PackagePollError pkgTitle err else err))
      | Returns (Inr pkgs) \<Rightarrow>
          (case slicePrefix (length pkgs + spare w (length pkgs)) pkgs mentions of
             Panics p \<Rightarrow> Panics p
           | Returns s \<Rightarrow> Returns (FromPackageChannel s)))"

text \<open>
  The receiving loop. \<open>arrival\<close> names the goroutines in the order in which their
  message is received (or their panic ends the program).
\<close>

fun discoveryLoop ::
  "env \<Rightarrow> (string \<rightharpoonup> nat) \<Rightarrow> string list \<Rightarrow> feeds_Package list \<times> error list
     \<Rightarrow> (feeds_Package list \<times> error list) outcome" where
  "discoveryLoop w counts [] acc = Returns acc"
| "discoveryLoop w counts (pkgTitle # arrival) (pkgs, errs) =
     (case discoveryTask w pkgTitle (lookup0 counts pkgTitle) of
        Panics p \<Rightarrow> Panics p
      | Returns (FromPackageChannel npmPkgs) \<Rightarrow>
          (case appendPackages pkgs npmPkgs of
             Panics p \<Rightarrow> Panics p
           | Returns pkgs' \<Rightarrow> discoveryLoop w counts arrival (pkgs', errs))
      | Returns (FromErrChannel err) \<Rightarrow>
          discoveryLoop w counts arrival
            (pkgs, if \<not> errors_Is err ErrUnpublished then errs @ [err] else errs))"

definition fetchAllPackages ::
  "env \<Rightarrow> string list \<Rightarrow> (feeds_Package list \<times> error list) outcome" where
  "fetchAllPackages w arrival =
     (case fetchPackageEvents w of
        Inl err \<Rightarrow> Returns ([], [] @ [err])
      | Inr packageEvents \<Rightarrow>
          discoveryLoop w (uniquePackages packageEvents)
            (take (length (remdups (map event_Title packageEvents))) arrival) ([], []))"

subsection \<open>fetchCriticalPackages\<close>

definition criticalTask :: "env \<Rightarrow> string \<Rightarrow> message outcome" where
  "criticalTask w pkgTitle =
     (case fetchPackage w pkgTitle of
        Panics p \<Rightarrow> Panics p
      | Returns (Inl err) \<Rightarrow>
          Returns (FromErrChannel
            (if \<not> errors_Is err ErrUnpublished then PackagePollError pkgTitle err else err))
      | Returns (Inr pkgs) \<Rightarrow> Returns (FromPackageChannel (map Some pkgs)))"

fun criticalLoop ::
  "env \<Rightarrow> string list \<Rightarrow> feeds_Package list \<times> error list
     \<Rightarrow> (feeds_Package list \<times> error list) outcome" where
  "criticalLoop w [] acc = Returns acc"
| "criticalLoop w (pkgTitle # arrival) (pkgs, errs) =
     (case criticalTask w pkgTitle of
        Panics p \<Rightarrow> Panics p
      | Returns (FromPackageChannel npmPkgs) \<Rightarrow>
          (case appendPackages pkgs npmPkgs of
             Panics p \<Rightarrow> Panics p
           | Returns pkgs' \<Rightarrow> criticalLoop w arrival (pkgs', errs))
      | Returns (FromErrChannel err) \<Rightarrow> criticalLoop w arrival (pkgs, errs @ [err]))"

definition fetchCriticalPackages ::
  "env \<Rightarrow> string list \<Rightarrow> string list \<Rightarrow> (feeds_Package list \<times> error list) outcome" where
  "fetchCriticalPackages w pkgList arrival =
     criticalLoop w (take (length pkgList) arrival) ([], [])"

subsection \<open>Feed.Latest\<close>

text \<open>
  Modelled from the spec: \<^verbatim>\<open>feeds.ApplyCutoff\<close>, of package \<^verbatim>\<open>feeds\<close>, which is not among
  the sources: "retain only releases with publish timestamp strictly after cutoff; drop
  the rest. Preserve relative order."
\<close>

definition ApplyCutoff :: "feeds_Package list \<Rightarrow> time \<Rightarrow> feeds_Package list" where
  "ApplyCutoff pkgs cutoff = filter (\<lambda>pkg. cutoff < feeds_CreatedDate pkg) pkgs"

text \<open>
  The call of the lossy-feed alerter between sorting and filtering hands the sorted
  slice to an observer outside this package; it has no part in what \<open>Latest\<close> returns.
\<close>

definition Latest ::
  "env \<Rightarrow> Feed \<Rightarrow> string list \<Rightarrow> time \<Rightarrow> (feeds_Package list \<times> error list) outcome" where
  "Latest w feed arrival cutoff =
     (case (case packages feed of
              None \<Rightarrow> fetchAllPackages w arrival
            | Some pkgList \<Rightarrow> fetchCriticalPackages w pkgList arrival) of
        Panics p \<Rightarrow> Panics p
      | Returns (pkgs, errs) \<Rightarrow>
          if length pkgs = 0 then Returns ([], errs @ [ErrNoPackagesPolled])
          else Returns (ApplyCutoff (SliceStable (\<lambda>a b. feeds_CreatedDate b < feeds_CreatedDate a)
                                       pkgs) cutoff, errs))"

section \<open>The fixtures of the package's tests\<close>

text \<open>
  The mock registry of \<^verbatim>\<open>npm_test.go\<close>: the four metadata documents in the order of
  their text, a not-found status for every other path, and the RFC 3339 strings of
  those documents with their instants in seconds since the epoch.
\<close>

definition testParse :: "string \<Rightarrow> library_error + time" where
  "testParse s =
     (if s = ''2021-03-22T13:07:29.000Z'' then Inr 1616418449
      else if s = ''2021-03-23T05:17:43.000Z'' then Inr 1616476663
      else if s = ''2021-05-11T18:32:01.000Z'' then Inr 1620757921
      else if s = ''2021-03-22T13:45:16.000Z'' then Inr 1616420716
      else if s = ''2021-05-11T17:23:02.000Z'' then Inr 1620753782
      else if s = ''2021-05-11T14:18:32.000Z'' then Inr 1620742712
      else if s = ''2021-05-11T14:19:45.000Z'' then Inr 1620742785
      else if s = ''2021-05-10T14:38:14.000Z'' then Inr 1620657494
      else if s = ''2021-05-11T11:19:43.000Z'' then Inr 1620731983
      else Inl ''cannot parse'')"

definition fooVersionInfoResponse :: "(string \<times> json) list" where
  "fooVersionInfoResponse =
     [(''name'', JString ''FooPackage''),
      (''dist-tags'', JObject [(''latest'', JString ''1.0.1''),
                               (''release-0.9.x'', JString ''0.9.1'')]),
      (''time'', JObject [(''created'', JString ''2021-03-22T13:07:29.000Z''),
                          (''1.0.0'', JString ''2021-03-22T13:07:29.000Z''),
                          (''modified'', JString ''2021-05-11T18:34:12.000Z''),
                          (''0.9.1'', JString ''2021-03-23T05:17:43.000Z''),
                          (''1.0.1'', JString ''2021-05-11T18:32:01.000Z'')])]"

definition barVersionInfoResponse :: "(string \<times> json) list" where
  "barVersionInfoResponse =
     [(''name'', JString ''BarPackage''),
      (''dist-tags'', JObject [(''latest'', JString ''0.4.0''),
                               (''next'', JString ''0.5.0-alpha'')]),
      (''time'', JObject [(''created'', JString ''2021-03-22T13:45:16.000Z''),
                          (''0.4.0'', JString ''2021-03-22T13:45:16.000Z''),
                          (''modified'', JString ''2021-05-11T17:24:14.000Z''),
                          (''0.5.0-alpha'', JString ''2021-05-11T17:23:02.000Z'')])]"

definition bazVersionInfoResponse :: "(string \<times> json) list" where
  "bazVersionInfoResponse =
     [(''name'', JString ''BazPackage''),
      (''dist-tags'', JObject [(''latest'', JString ''1.1'')]),
      (''time'', JObject [(''created'', JString ''2021-05-11T14:18:32.000Z''),
                          (''1.0'', JString ''2021-05-11T14:18:32.000Z''),
                          (''modified'', JString ''2021-05-11T14:19:46.000Z''),
                          (''1.1'', JString ''2021-05-11T14:19:45.000Z'')])]"

definition quxVersionInfoResponse :: "(string \<times> json) list" where
  "quxVersionInfoResponse =
     [(''name'', JString ''QuxPackage''),
      (''time'', JObject [(''created'', JString ''2021-05-10T14:38:14.000Z''),
                          (''1.0'', JString ''2021-05-10T14:38:14.000Z''),
                          (''modified'', JString ''2021-05-11T14:17:12.000Z''),
                          (''1.1'', JString ''2021-05-11T11:19:43.000Z''),
                          (''unpublished'',
                             JObject [(''name'', JString ''Quxman''),
                                      (''time'', JString ''2021-05-11T14:17:12.000Z''),
                                      (''versions'', JArray [JString ''1.0'', JString ''1.1''])])])]"

definition notFound :: library_error where
  "notFound = ''404 Not Found''"

definition testRegistry :: "string \<Rightarrow> pkg_response" where
  "testRegistry pkgTitle =
     (if pkgTitle = ''FooPackage'' then Document fooVersionInfoResponse
      else if pkgTitle = ''BarPackage'' then Document barVersionInfoResponse
      else if pkgTitle = ''BazPackage'' then Document bazVersionInfoResponse
      else if pkgTitle = ''QuxPackage'' then Document quxVersionInfoResponse
      else BadStatus notFound)"

definition npmLatestPackagesResponse :: "PackageEvent list" where
  "npmLatestPackagesResponse =
     [PackageEvent ''FooPackage'', PackageEvent ''BarPackage'', PackageEvent ''BazPackage'',
      PackageEvent ''BazPackage'', PackageEvent ''QuxPackage'']"

text \<open>
  The spare capacity is that of the Go runtime for slices of pointers of up to four
  elements built by appending one element at a time (capacities 1, 2, 4, 4).
\<close>

definition testEnv :: env where
  "testEnv = \<lparr>rss = RssDocument npmLatestPackagesResponse, registry = testRegistry,
              time_Parse = testParse, spare = (\<lambda>n. if n = 3 then 1 else 0)\<rparr>"

definition discoveryFeed :: Feed where
  "discoveryFeed = \<lparr>packages = None, baseURL = ''https://registry.npmjs.org/''\<rparr>"

definition watchFeed :: "string list \<Rightarrow> Feed" where
  "watchFeed pkgList = \<lparr>packages = Some pkgList, baseURL = ''https://registry.npmjs.org/''\<rparr>"

section \<open>Vocabulary of the statements\<close>

text \<open>
  The entries of the timestamp map that are left after the two \<^verbatim>\<open>delete\<close> calls of
  \<^verbatim>\<open>fetchPackage\<close>, the instant that the loop of \<^verbatim>\<open>fetchPackage\<close> reads from one value
  (none when the value is not a string or \<^verbatim>\<open>time.Parse\<close> rejects it), and the
  \<^verbatim>\<open>Package\<close> that the loop appends for one entry.
\<close>

definition remaining :: "(string \<times> json) list \<Rightarrow> (string \<times> json) list" where
  "remaining versions = delete ''modified'' (delete ''created'' versions)"

definition timestampOf :: "(string \<Rightarrow> library_error + time) \<Rightarrow> json \<Rightarrow> time option" where
  "timestampOf parse j =
     (case j of JString s \<Rightarrow> (case parse s of Inr d \<Rightarrow> Some d | Inl err \<Rightarrow> None) | _ \<Rightarrow> None)"

definition versionOf :: "(string \<Rightarrow> library_error + time) \<Rightarrow> string \<Rightarrow> string \<times> json \<Rightarrow> Package" where
  "versionOf parse pkgTitle entry =
     \<lparr>Title = pkgTitle, CreatedDate = the (timestampOf parse (snd entry)), Version = fst entry,
      Unpublished = False\<rparr>"

text \<open>
  Further registries: a document without a timestamp map; a withdrawn package one of
  whose versions carries a number; a version whose timestamp does not parse, visited
  before a version that carries a number; a version that carries a number, visited
  after one that parses.
\<close>

definition emptyDocument :: "string \<Rightarrow> pkg_response" where
  "emptyDocument pkgTitle = Document [(''name'', JString pkgTitle)]"

definition markedRegistry :: "string \<Rightarrow> pkg_response" where
  "markedRegistry pkgTitle =
     Document [(''time'', JObject [(''1.0'', JNumber 5), (''unpublished'', JObject [])])]"

definition garbledRegistry :: "string \<Rightarrow> pkg_response" where
  "garbledRegistry pkgTitle =
     Document [(''time'', JObject [(''1.0'', JString ''yesterday''), (''1.1'', JNumber 5)])]"

definition numericRegistry :: "string \<Rightarrow> pkg_response" where
  "numericRegistry pkgTitle =
     Document [(''time'', JObject [(''created'', JString ''2021-05-10T14:38:14.000Z''),
                                   (''1.0'', JString ''2021-05-10T14:38:14.000Z''),
                                   (''1.1'', JNumber 1620731983)])]"

text \<open>
  The \<^verbatim>\<open>feeds.Package\<close> that the receiving loops build from one \<^verbatim>\<open>Package\<close>; the
  versions that \<^verbatim>\<open>fetchPackage\<close> resolves for a title (none when it fails); the error
  that the goroutine of a title sends on the error channel (none when it sends
  packages); and whether the goroutine of a title and the loop that receives its message
  get by without a panic, given how often the feed mentions each title.
\<close>

definition release :: "Package \<Rightarrow> feeds_Package" where
  "release pkg = NewPackage (CreatedDate pkg) (Title pkg) (Version pkg) FeedName"

definition resolved :: "env \<Rightarrow> string \<Rightarrow> Package list" where
  "resolved w pkgTitle = (case fetchPackage w pkgTitle of Returns (Inr vs) \<Rightarrow> vs | _ \<Rightarrow> [])"

definition failure :: "env \<Rightarrow> string \<Rightarrow> error list" where
  "failure w pkgTitle =
     (case fetchPackage w pkgTitle of
        Returns (Inl err) \<Rightarrow>
          [if \<not> errors_Is err ErrUnpublished then PackagePollError pkgTitle err else err]
      | _ \<Rightarrow> [])"

definition fits :: "env \<Rightarrow> (string \<Rightarrow> nat) \<Rightarrow> string \<Rightarrow> bool" where
  "fits w mentions pkgTitle =
     (case fetchPackage w pkgTitle of
        Panics p \<Rightarrow> False
      | Returns (Inl err) \<Rightarrow> True
      | Returns (Inr vs) \<Rightarrow> mentions pkgTitle \<le> length vs)"

text \<open>A feed that mentions a package of two versions three times.\<close>

definition threeBars :: "PackageEvent list" where
  "threeBars = [PackageEvent ''BarPackage'', PackageEvent ''BarPackage'', PackageEvent ''BarPackage'']"

text \<open>A registry whose package has two versions published at the same instant.\<close>

definition twinRegistry :: "string \<Rightarrow> pkg_response" where
  "twinRegistry pkgTitle =
     Document [(''time'', JObject [(''1.0'', JString ''2021-05-11T14:18:32.000Z''),
                                   (''1.1'', JString ''2021-05-11T14:18:32.000Z'')])]"

text \<open>
  The three versions of FooPackage, newest first, and a feed that mentions FooPackage
  and a package that the registry does not have.
\<close>

definition fooVersions :: "Package list" where
  "fooVersions =
     [\<lparr>Title = ''FooPackage'', CreatedDate = 1620757921, Version = ''1.0.1'', Unpublished = False\<rparr>,
      \<lparr>Title = ''FooPackage'', CreatedDate = 1616476663, Version = ''0.9.1'', Unpublished = False\<rparr>,
      \<lparr>Title = ''FooPackage'', CreatedDate = 1616418449, Version = ''1.0.0'', Unpublished = False\<rparr>]"

definition fooAndMissing :: "PackageEvent list" where
  "fooAndMissing = [PackageEvent ''FooPackage'', PackageEvent ''QuuxPackage'']"

text \<open>A feed that mentions FooPackage, the withdrawn package and a missing one.\<close>

definition withdrawnAndMissing :: "PackageEvent list" where
  "withdrawnAndMissing =
     [PackageEvent ''FooPackage'', PackageEvent ''QuxPackage'', PackageEvent ''QuuxPackage'']"

section \<open>The stable sort\<close>

lemma insertStable_insort:
  fixes f :: "'a \<Rightarrow> int"
  shows "insertStable (\<lambda>a b. f b < f a) x ys = insort_key (\<lambda>p. - f p) x ys"
  by (induction ys) auto

lemma SliceStable_sort_key:
  fixes f :: "'a \<Rightarrow> int"
  shows "SliceStable (\<lambda>a b. f b < f a) xs = sort_key (\<lambda>p. - f p) xs"
  by (induction xs) (simp_all add: SliceStable_def insertStable_insort)

lemma mset_SliceStable:
  fixes f :: "'a \<Rightarrow> int"
  shows "mset (SliceStable (\<lambda>a b. f b < f a) xs) = mset xs"
  by (simp add: SliceStable_sort_key)

lemma set_SliceStable:
  fixes f :: "'a \<Rightarrow> int"
  shows "set (SliceStable (\<lambda>a b. f b < f a) xs) = set xs"
  by (simp add: SliceStable_sort_key)

lemma length_SliceStable:
  fixes f :: "'a \<Rightarrow> int"
  shows "length (SliceStable (\<lambda>a b. f b < f a) xs) = length xs"
  by (simp add: SliceStable_sort_key)

lemma sorted_SliceStable:
  fixes f :: "'a \<Rightarrow> int"
  shows "sorted_wrt (\<lambda>a b. f b \<le> f a) (SliceStable (\<lambda>a b. f b < f a) xs)"
proof -
  have "sorted (map (\<lambda>p. - f p) (sort_key (\<lambda>p. - f p) xs))"
    by (rule sorted_sort_key)
  then show ?thesis
    by (simp add: SliceStable_sort_key sorted_map)
qed

lemma stable_SliceStable:
  fixes f :: "'a \<Rightarrow> int"
  shows "filter (\<lambda>y. f y = k) (SliceStable (\<lambda>a b. f b < f a) xs) = filter (\<lambda>y. f y = k) xs"
proof -
  have "filter (\<lambda>y. - f y = - k) (sort_key (\<lambda>p. - f p) xs) = filter (\<lambda>y. - f y = - k) xs"
    by (rule sort_key_stable)
  then show ?thesis
    by (simp add: SliceStable_sort_key)
qed

lemma filter_SliceStable:
  fixes f :: "'a \<Rightarrow> int"
  shows "filter P (SliceStable (\<lambda>a b. f b < f a) xs) = SliceStable (\<lambda>a b. f b < f a) (filter P xs)"
  by (simp add: SliceStable_sort_key filter_sort)

lemma SliceStable_sorted_id:
  fixes f :: "'a \<Rightarrow> int"
  assumes "sorted_wrt (\<lambda>a b. f b \<le> f a) xs"
  shows "SliceStable (\<lambda>a b. f b < f a) xs = xs"
proof -
  from assms have "sorted (map (\<lambda>p. - f p) xs)"
    by (simp add: sorted_map)
  then show ?thesis
    by (simp add: SliceStable_sort_key sort_key_id_if_sorted)
qed

lemma strict_sorted_if_distinct:
  fixes f :: "'a \<Rightarrow> int"
  assumes "sorted_wrt (\<lambda>a b. f b \<le> f a) xs" and "distinct (map f xs)"
  shows "sorted_wrt (\<lambda>a b. f b < f a) xs"
  using assms
proof (induction xs)
  case Nil
  then show ?case by simp
next
  case (Cons a xs)
  have "f x < f a" if "x \<in> set xs" for x
  proof -
    from Cons.prems(1) that have "f x \<le> f a" by simp
    moreover from Cons.prems(2) that have "f x \<noteq> f a" by (auto simp: image_iff)
    ultimately show ?thesis by simp
  qed
  with Cons show ?case by simp
qed

section \<open>The version resolver\<close>

lemma versionLoop_parsed:
  "\<forall>e\<in>set es. timestampOf parse (snd e) \<noteq> None \<Longrightarrow>
     versionLoop parse t es acc = Returns (Inr (acc @ map (versionOf parse t) es))"
proof (induction es arbitrary: acc)
  case Nil
  then show ?case by simp
next
  case (Cons e es)
  obtain v j where e: "e = (v, j)" by (cases e)
  from Cons.prems e obtain s d where j: "j = JString s" and d: "parse s = Inr d"
    by (auto simp: timestampOf_def split: json.splits sum.splits)
  from Cons.prems have "\<forall>e\<in>set es. timestampOf parse (snd e) \<noteq> None" by simp
  from Cons.IH [OF this] show ?case
    by (simp add: e j d versionOf_def timestampOf_def)
qed

lemma versionLoop_Returns_Inr:
  "versionLoop parse t es acc = Returns (Inr out) \<Longrightarrow>
     \<forall>e\<in>set es. timestampOf parse (snd e) \<noteq> None"
proof (induction parse t es acc rule: versionLoop.induct)
  case (1 parse pkgTitle versionSlice)
  then show ?case by simp
next
  case (2 parse pkgTitle version timestamp rest versionSlice)
  then show ?case
    by (auto simp: timestampOf_def split: sum.splits)
qed simp_all

lemma versionLoop_stops_at_non_string:
  assumes "\<forall>e\<in>set pre. timestampOf parse (snd e) \<noteq> None" and "\<forall>s. j \<noteq> JString s"
  shows "versionLoop parse t (pre @ (v, j) # rest) acc = Panics TypeAssertion"
  using assms(1)
proof (induction pre arbitrary: acc)
  case Nil
  from assms(2) show ?case by (cases j) simp_all
next
  case (Cons e pre)
  obtain v' j' where e: "e = (v', j')" by (cases e)
  from Cons.prems e obtain s d where j: "j' = JString s" and d: "parse s = Inr d"
    by (auto simp: timestampOf_def split: json.splits sum.splits)
  from Cons.prems have "\<forall>e\<in>set pre. timestampOf parse (snd e) \<noteq> None" by simp
  from Cons.IH [OF this] show ?case
    by (simp add: e j d)
qed

lemma versionLoop_strings_no_panic:
  "\<forall>e\<in>set es. \<exists>s. snd e = JString s \<Longrightarrow> versionLoop parse t es acc \<noteq> Panics p"
proof (induction parse t es acc rule: versionLoop.induct)
  case (2 parse pkgTitle version timestamp rest versionSlice)
  then show ?case by (auto split: sum.splits)
qed auto

lemma versionLoop_panic_non_string:
  "versionLoop parse t es acc = Panics p \<Longrightarrow> p = TypeAssertion \<and> (\<exists>e\<in>set es. \<forall>s. snd e \<noteq> JString s)"
proof (induction parse t es acc rule: versionLoop.induct)
  case (2 parse pkgTitle version timestamp rest versionSlice)
  then show ?case by (auto split: sum.splits)
qed auto

lemma fetchPackage_Document:
  assumes "registry w t = Document doc" and "map_of doc ''time'' = Some (JObject versions)"
    and "map_of versions ''unpublished'' = None"
  shows "fetchPackage w t =
     (case versionLoop (time_Parse w) t (remaining versions) [] of
        Returns (Inr versionSlice) \<Rightarrow>
          Returns (Inr (SliceStable (\<lambda>a b. CreatedDate b < CreatedDate a) versionSlice))
      | Returns (Inl err) \<Rightarrow> Returns (Inl err)
      | Panics p \<Rightarrow> Panics p)"
  using assms by (simp add: fetchPackage_def remaining_def)

lemma fetchPackage_versions:
  assumes "registry w t = Document doc" and "map_of doc ''time'' = Some (JObject versions)"
    and "map_of versions ''unpublished'' = None"
    and "\<forall>e\<in>set (remaining versions). timestampOf (time_Parse w) (snd e) \<noteq> None"
  shows "fetchPackage w t =
     Returns (Inr (SliceStable (\<lambda>a b. CreatedDate b < CreatedDate a)
                     (map (versionOf (time_Parse w) t) (remaining versions))))"
  by (simp add: fetchPackage_Document [OF assms(1-3)] versionLoop_parsed [OF assms(4)])

lemma fetchPackage_Inr:
  assumes "fetchPackage w t = Returns (Inr vs)"
  obtains doc versions where "registry w t = Document doc"
    and "map_of doc ''time'' = Some (JObject versions)"
    and "map_of versions ''unpublished'' = None"
    and "\<forall>e\<in>set (remaining versions). timestampOf (time_Parse w) (snd e) \<noteq> None"
    and "vs = SliceStable (\<lambda>a b. CreatedDate b < CreatedDate a)
                (map (versionOf (time_Parse w) t) (remaining versions))"
proof -
  from assms obtain doc where doc: "registry w t = Document doc"
    by (cases "registry w t") (simp_all add: fetchPackage_def)
  from assms doc obtain versions where versions: "map_of doc ''time'' = Some (JObject versions)"
    by (auto simp: fetchPackage_def split: option.splits json.splits)
  from assms doc versions have marker: "map_of versions ''unpublished'' = None"
    by (auto simp: fetchPackage_def split: if_splits)
  note unfolded = fetchPackage_Document [OF doc versions marker]
  from assms obtain versionSlice
    where loop: "versionLoop (time_Parse w) t (remaining versions) [] = Returns (Inr versionSlice)"
    by (auto simp: unfolded split: outcome.splits sum.splits)
  have parsed: "\<forall>e\<in>set (remaining versions). timestampOf (time_Parse w) (snd e) \<noteq> None"
    by (rule versionLoop_Returns_Inr [OF loop])
  from assms have "vs = SliceStable (\<lambda>a b. CreatedDate b < CreatedDate a)
                (map (versionOf (time_Parse w) t) (remaining versions))"
    by (simp add: fetchPackage_versions [OF doc versions marker parsed])
  with doc versions marker parsed that show ?thesis by blast
qed

lemma fetchPackage_Title:
  assumes "fetchPackage w t = Returns (Inr vs)" and "v \<in> set vs"
  shows "Title v = t"
proof -
  from assms(1) obtain versions
    where "vs = SliceStable (\<lambda>a b. CreatedDate b < CreatedDate a)
                (map (versionOf (time_Parse w) t) (remaining versions))"
    by (rule fetchPackage_Inr)
  with assms(2) show ?thesis
    by (auto simp: set_SliceStable versionOf_def)
qed

lemma fetchPackage_sorted:
  assumes "fetchPackage w t = Returns (Inr vs)"
  shows "sorted_wrt (\<lambda>a b. CreatedDate b \<le> CreatedDate a) vs"
proof -
  from assms obtain versions
    where "vs = SliceStable (\<lambda>a b. CreatedDate b < CreatedDate a)
                (map (versionOf (time_Parse w) t) (remaining versions))"
    by (rule fetchPackage_Inr)
  then show ?thesis
    by (simp add: sorted_SliceStable)
qed

lemma fetchPackage_Inl_unpublished:
  assumes "fetchPackage w t = Returns (Inl e)" and "errors_Is e ErrUnpublished"
  shows "e = Errorf (t @ '' '') ErrUnpublished []"
proof (cases "registry w t")
  case (Document doc)
  show ?thesis
  proof (cases "\<exists>versions. map_of doc ''time'' = Some (JObject versions)")
    case True
    then obtain versions where versions: "map_of doc ''time'' = Some (JObject versions)" ..
    show ?thesis
    proof (cases "map_of versions ''unpublished''")
      case None
      have "\<not> errors_Is e' ErrUnpublished"
        if "versionLoop parse t es acc = Returns (Inl e')" for parse es acc e'
        using that
      proof (induction parse t es acc rule: versionLoop.induct)
        case (2 parse pkgTitle version timestamp rest versionSlice)
        then show ?case by (auto split: sum.splits)
      qed simp_all
      with assms show ?thesis
        by (auto simp: fetchPackage_Document [OF Document versions None]
            split: outcome.splits sum.splits)
    next
      case (Some marker)
      with assms Document versions show ?thesis
        by (simp add: fetchPackage_def)
    qed
  next
    case False
    with assms Document show ?thesis
      by (auto simp: fetchPackage_def timeNotFound_def split: option.splits json.splits)
  qed
qed (use assms in \<open>auto simp: fetchPackage_def\<close>)

lemma fetchPackage_time_missing:
  assumes "registry w t = Document doc" and "\<forall>versions. map_of doc ''time'' \<noteq> Some (JObject versions)"
  shows "fetchPackage w t = Returns (Inl (timeNotFound t))"
  using assms by (auto simp: fetchPackage_def split: option.splits json.splits)

lemma fetchPackage_marker:
  assumes "registry w t = Document doc" and "map_of doc ''time'' = Some (JObject versions)"
    and "map_of versions ''unpublished'' = Some marker"
  shows "fetchPackage w t = Returns (Inl (Errorf (t @ '' '') ErrUnpublished []))"
  using assms by (simp add: fetchPackage_def)

lemma distinct_versions:
  assumes "fetchPackage w t = Returns (Inr vs)"
    and "\<And>doc versions. registry w t = Document doc \<Longrightarrow> map_of doc ''time'' = Some (JObject versions)
           \<Longrightarrow> distinct (map fst versions)"
  shows "distinct (map Version vs)"
proof -
  from assms(1) obtain doc versions where doc: "registry w t = Document doc"
    and versions: "map_of doc ''time'' = Some (JObject versions)"
    and vs: "vs = SliceStable (\<lambda>a b. CreatedDate b < CreatedDate a)
                (map (versionOf (time_Parse w) t) (remaining versions))"
    by (rule fetchPackage_Inr)
  have "distinct (map fst versions)" by (rule assms(2) [OF doc versions])
  then have keys: "distinct (map fst (remaining versions))"
    by (simp add: remaining_def delete_def distinct_map_filter)
  have "map Version (map (versionOf (time_Parse w) t) (remaining versions))
      = map fst (remaining versions)"
    by (simp add: versionOf_def)
  with keys have "distinct (map Version (map (versionOf (time_Parse w) t) (remaining versions)))"
    by (simp only:)
  moreover have "mset (map Version vs)
      = mset (map Version (map (versionOf (time_Parse w) t) (remaining versions)))"
    unfolding vs mset_map mset_SliceStable ..
  ultimately show ?thesis
    by (metis mset_eq_imp_distinct_iff)
qed

lemma fetchPackage_Panics:
  assumes "fetchPackage w t = Panics p"
  shows "p = TypeAssertion \<and>
     (\<exists>doc versions. registry w t = Document doc \<and> map_of doc ''time'' = Some (JObject versions) \<and>
        map_of versions ''unpublished'' = None \<and>
        (\<exists>entry\<in>set (remaining versions). \<forall>s. snd entry \<noteq> JString s))"
proof -
  from assms obtain doc where doc: "registry w t = Document doc"
    by (cases "registry w t") (simp_all add: fetchPackage_def)
  from assms doc obtain versions where versions: "map_of doc ''time'' = Some (JObject versions)"
    by (auto simp: fetchPackage_def split: option.splits json.splits)
  from assms doc versions have marker: "map_of versions ''unpublished'' = None"
    by (auto simp: fetchPackage_def split: if_splits)
  from assms have "versionLoop (time_Parse w) t (remaining versions) [] = Panics p"
    by (auto simp: fetchPackage_Document [OF doc versions marker] split: outcome.splits sum.splits)
  from versionLoop_panic_non_string [OF this] doc versions marker show ?thesis
    by blast
qed

text \<open>
  C7. For a document that \<^verbatim>\<open>json.Unmarshal\<close> accepted: when it has no timestamp map (no
  \<open>time\<close> entry, or one that is not an object) \<^verbatim>\<open>fetchPackage\<close> returns an error that wraps
  \<^verbatim>\<open>errJSON\<close>. When it has one, the map carries no \<open>unpublished\<close> entry, and every value
  left after dropping \<open>created\<close> and \<open>modified\<close> is a string that \<^verbatim>\<open>time.Parse\<close> accepts,
  \<^verbatim>\<open>fetchPackage\<close> returns exactly the remaining (version, timestamp) pairs, each under
  the package's title, newest first, versions of equal timestamp in the order in which
  the map was visited.
\<close>

theorem resolver_versions:
  assumes "registry w t = Document doc"
  shows "((\<forall>versions. map_of doc ''time'' \<noteq> Some (JObject versions)) \<longrightarrow>
            (\<exists>e. fetchPackage w t = Returns (Inl e) \<and> errors_Is e ErrJSON)) \<and>
         (map_of doc ''time'' = Some (JObject versions) \<and>
          map_of versions ''unpublished'' = None \<and>
          (\<forall>entry\<in>set (remaining versions). timestampOf (time_Parse w) (snd entry) \<noteq> None) \<longrightarrow>
            remaining versions =
              filter (\<lambda>entry. fst entry \<noteq> ''created'' \<and> fst entry \<noteq> ''modified'') versions \<and>
            (\<exists>vs. fetchPackage w t = Returns (Inr vs) \<and>
               mset (map (\<lambda>p. (Version p, Some (CreatedDate p))) vs) =
                 mset (map (\<lambda>entry. (fst entry, timestampOf (time_Parse w) (snd entry)))
                         (remaining versions)) \<and>
               (\<forall>p\<in>set vs. Title p = t) \<and>
               sorted_wrt (\<lambda>a b. CreatedDate b \<le> CreatedDate a) vs \<and>
               (\<forall>d. map Version (filter (\<lambda>p. CreatedDate p = d) vs) =
                      map fst (filter (\<lambda>entry. timestampOf (time_Parse w) (snd entry) = Some d)
                                 (remaining versions)))))"
proof (intro conjI impI)
  assume "\<forall>versions. map_of doc ''time'' \<noteq> Some (JObject versions)"
  then have "fetchPackage w t = Returns (Inl (timeNotFound t))"
    by (rule fetchPackage_time_missing [OF assms])
  moreover have "errors_Is (timeNotFound t) ErrJSON"
    by (simp add: timeNotFound_def)
  ultimately show "\<exists>e. fetchPackage w t = Returns (Inl e) \<and> errors_Is e ErrJSON"
    by blast
next
  show "remaining versions =
      filter (\<lambda>entry. fst entry \<noteq> ''created'' \<and> fst entry \<noteq> ''modified'') versions"
    by (auto simp: remaining_def delete_def intro: filter_cong)
next
  let ?parse = "time_Parse w"
  let ?rem = "remaining versions"
  let ?vs = "SliceStable (\<lambda>a b. CreatedDate b < CreatedDate a) (map (versionOf ?parse t) ?rem)"
  assume hyps: "map_of doc ''time'' = Some (JObject versions) \<and>
      map_of versions ''unpublished'' = None \<and>
      (\<forall>entry\<in>set ?rem. timestampOf ?parse (snd entry) \<noteq> None)"
  then have parsed: "\<forall>entry\<in>set ?rem. timestampOf ?parse (snd entry) \<noteq> None"
    by simp
  have fetched: "fetchPackage w t = Returns (Inr ?vs)"
    using hyps by (intro fetchPackage_versions [OF assms]) simp_all
  have pairs: "map (\<lambda>p. (Version p, Some (CreatedDate p))) (map (versionOf ?parse t) ?rem)
      = map (\<lambda>entry. (fst entry, timestampOf ?parse (snd entry))) ?rem"
    using parsed by (auto simp: versionOf_def)
  have "mset (map (\<lambda>p. (Version p, Some (CreatedDate p))) ?vs)
      = mset (map (\<lambda>p. (Version p, Some (CreatedDate p))) (map (versionOf ?parse t) ?rem))"
    unfolding mset_map mset_SliceStable ..
  then have all: "mset (map (\<lambda>p. (Version p, Some (CreatedDate p))) ?vs) =
      mset (map (\<lambda>entry. (fst entry, timestampOf ?parse (snd entry))) ?rem)"
    by (simp only: pairs)
  have fields: "\<forall>p\<in>set ?vs. Title p = t"
    by (auto simp: set_SliceStable versionOf_def)
  have sorted: "sorted_wrt (\<lambda>a b. CreatedDate b \<le> CreatedDate a) ?vs"
    by (rule sorted_SliceStable)
  have stable: "map Version (filter (\<lambda>p. CreatedDate p = d) ?vs) =
      map fst (filter (\<lambda>entry. timestampOf ?parse (snd entry) = Some d) ?rem)" for d
  proof -
    have "map Version (filter (\<lambda>p. CreatedDate p = d) (map (versionOf ?parse t) es)) =
        map fst (filter (\<lambda>entry. timestampOf ?parse (snd entry) = Some d) es)"
      if "\<forall>entry\<in>set es. timestampOf ?parse (snd entry) \<noteq> None" for es
      using that by (induction es) (auto simp: versionOf_def)
    from this [OF parsed] show ?thesis
      by (simp add: stable_SliceStable)
  qed
  from fetched all fields sorted stable
  show "\<exists>vs. fetchPackage w t = Returns (Inr vs) \<and>
      mset (map (\<lambda>p. (Version p, Some (CreatedDate p))) vs) =
        mset (map (\<lambda>entry. (fst entry, timestampOf ?parse (snd entry))) ?rem) \<and>
      (\<forall>p\<in>set vs. Title p = t) \<and>
      sorted_wrt (\<lambda>a b. CreatedDate b \<le> CreatedDate a) vs \<and>
      (\<forall>d. map Version (filter (\<lambda>p. CreatedDate p = d) vs) =
             map fst (filter (\<lambda>entry. timestampOf ?parse (snd entry) = Some d) ?rem))"
    by blast
qed

text \<open>
  Without the two conditions the statement fails, as on the withdrawn package of the
  tests: the timestamp map is there, and the result is the unpublish error.
\<close>

theorem resolver_unpublished_counterexample:
  "map_of quxVersionInfoResponse ''time'' \<noteq> None \<and>
   fetchPackage testEnv ''QuxPackage'' = Returns (Inl (Errorf ''QuxPackage '' ErrUnpublished []))"
  by (simp add: fetchPackage_def testEnv_def testRegistry_def quxVersionInfoResponse_def)

theorem resolver_versions_witness:
  "registry (testEnv\<lparr>registry := emptyDocument\<rparr>) ''FooPackage'' = Document [(''name'', JString ''FooPackage'')] \<and>
   (\<forall>versions. map_of [(''name'', JString ''FooPackage'')] ''time'' \<noteq> Some (JObject versions)) \<and>
   (\<exists>e. fetchPackage (testEnv\<lparr>registry := emptyDocument\<rparr>) ''FooPackage'' = Returns (Inl e)
          \<and> errors_Is e ErrJSON) \<and>
   registry testEnv ''FooPackage'' = Document fooVersionInfoResponse \<and>
   map_of fooVersionInfoResponse ''time'' =
     Some (JObject [(''created'', JString ''2021-03-22T13:07:29.000Z''),
                    (''1.0.0'', JString ''2021-03-22T13:07:29.000Z''),
                    (''modified'', JString ''2021-05-11T18:34:12.000Z''),
                    (''0.9.1'', JString ''2021-03-23T05:17:43.000Z''),
                    (''1.0.1'', JString ''2021-05-11T18:32:01.000Z'')]) \<and>
   (\<exists>vs. fetchPackage testEnv ''FooPackage'' = Returns (Inr vs) \<and>
      mset (map (\<lambda>p. (Version p, Some (CreatedDate p))) vs) =
        mset [(''1.0.0'', Some 1616418449), (''0.9.1'', Some 1616476663),
              (''1.0.1'', Some 1620757921)] \<and>
      sorted_wrt (\<lambda>a b. CreatedDate b \<le> CreatedDate a) vs)"
proof -
  let ?w = "testEnv\<lparr>registry := emptyDocument\<rparr>"
  let ?versions = "[(''created'', JString ''2021-03-22T13:07:29.000Z''),
                    (''1.0.0'', JString ''2021-03-22T13:07:29.000Z''),
                    (''modified'', JString ''2021-05-11T18:34:12.000Z''),
                    (''0.9.1'', JString ''2021-03-23T05:17:43.000Z''),
                    (''1.0.1'', JString ''2021-05-11T18:32:01.000Z'')]"
  have a1: "registry ?w ''FooPackage'' = Document [(''name'', JString ''FooPackage'')]"
    by (simp add: emptyDocument_def)
  have a2: "\<forall>versions. map_of [(''name'', JString ''FooPackage'')] ''time'' \<noteq> Some (JObject versions)"
    by simp
  have b1: "registry testEnv ''FooPackage'' = Document fooVersionInfoResponse"
    by (simp add: testEnv_def testRegistry_def)
  have b2: "map_of fooVersionInfoResponse ''time'' = Some (JObject ?versions)"
    by (simp add: fooVersionInfoResponse_def)
  have b3: "map_of ?versions ''unpublished'' = None"
    by simp
  have rem: "remaining ?versions = [(''1.0.0'', JString ''2021-03-22T13:07:29.000Z''),
                    (''0.9.1'', JString ''2021-03-23T05:17:43.000Z''),
                    (''1.0.1'', JString ''2021-05-11T18:32:01.000Z'')]"
    by (simp add: remaining_def delete_def)
  have b4: "\<forall>entry\<in>set (remaining ?versions). timestampOf (time_Parse testEnv) (snd entry) \<noteq> None"
    by (simp add: rem timestampOf_def testEnv_def testParse_def)
  have stamps: "map (\<lambda>entry. (fst entry, timestampOf (time_Parse testEnv) (snd entry)))
                         (remaining ?versions) = [(''1.0.0'', Some 1616418449), (''0.9.1'', Some 1616476663),
              (''1.0.1'', Some 1620757921)]"
    by (simp add: rem timestampOf_def testEnv_def testParse_def)
  from resolver_versions [OF a1, of "[]"] a2
  have "\<exists>e. fetchPackage ?w ''FooPackage'' = Returns (Inl e) \<and> errors_Is e ErrJSON"
    by blast
  moreover from resolver_versions [OF b1, of ?versions] b2 b3 b4
  have "\<exists>vs. fetchPackage testEnv ''FooPackage'' = Returns (Inr vs) \<and>
      mset (map (\<lambda>p. (Version p, Some (CreatedDate p))) vs) =
        mset (map (\<lambda>entry. (fst entry, timestampOf (time_Parse testEnv) (snd entry)))
                         (remaining ?versions)) \<and>
      sorted_wrt (\<lambda>a b. CreatedDate b \<le> CreatedDate a) vs"
    by blast
  ultimately show ?thesis
    using a1 a2 b1 b2 unfolding stamps by blast
qed

text \<open>
  C9. In a timestamp map without the \<open>unpublished\<close> entry, if the loop reaches a
  remaining value that is not a string, every value visited before it being a string
  that parses, \<^verbatim>\<open>fetchPackage\<close> panics in the type assertion. If every remaining value is
  a string, \<^verbatim>\<open>fetchPackage\<close> returns. Whenever \<^verbatim>\<open>fetchPackage\<close> panics, the panic is that
  of the type assertion, and the document has a timestamp map without the
  \<open>unpublished\<close> entry and with a remaining value that is not a string.
\<close>

theorem resolver_type_assertion:
  "(registry w t = Document doc \<and> map_of doc ''time'' = Some (JObject versions) \<and>
    map_of versions ''unpublished'' = None \<and> remaining versions = pre @ (v, j) # rest \<and>
    (\<forall>entry\<in>set pre. timestampOf (time_Parse w) (snd entry) \<noteq> None) \<and> (\<forall>s. j \<noteq> JString s)
      \<longrightarrow> fetchPackage w t = Panics TypeAssertion) \<and>
   (registry w t = Document doc \<and> map_of doc ''time'' = Some (JObject versions) \<and>
    (\<forall>entry\<in>set (remaining versions). \<exists>s. snd entry = JString s)
      \<longrightarrow> (\<exists>r. fetchPackage w t = Returns r)) \<and>
   (fetchPackage w t = Panics p
      \<longrightarrow> p = TypeAssertion \<and>
          (\<exists>doc versions. registry w t = Document doc \<and>
             map_of doc ''time'' = Some (JObject versions) \<and>
             map_of versions ''unpublished'' = None \<and>
             (\<exists>entry\<in>set (remaining versions). \<forall>s. snd entry \<noteq> JString s)))"
proof (intro conjI impI)
  assume hyps: "registry w t = Document doc \<and> map_of doc ''time'' = Some (JObject versions) \<and>
    map_of versions ''unpublished'' = None \<and> remaining versions = pre @ (v, j) # rest \<and>
    (\<forall>entry\<in>set pre. timestampOf (time_Parse w) (snd entry) \<noteq> None) \<and> (\<forall>s. j \<noteq> JString s)"
  then have "versionLoop (time_Parse w) t (remaining versions) [] = Panics TypeAssertion"
    by (simp add: versionLoop_stops_at_non_string)
  moreover from hyps have "registry w t = Document doc"
    and "map_of doc ''time'' = Some (JObject versions)"
    and "map_of versions ''unpublished'' = None"
    by simp_all
  note fetchPackage_Document [OF this]
  ultimately show "fetchPackage w t = Panics TypeAssertion"
    by simp
next
  assume hyps: "registry w t = Document doc \<and> map_of doc ''time'' = Some (JObject versions) \<and>
    (\<forall>entry\<in>set (remaining versions). \<exists>s. snd entry = JString s)"
  show "\<exists>r. fetchPackage w t = Returns r"
  proof (cases "fetchPackage w t")
    case (Returns r)
    then show ?thesis by blast
  next
    case (Panics q)
    from fetchPackage_Panics [OF this] hyps show ?thesis
      by auto
  qed
next
  assume "fetchPackage w t = Panics p"
  from fetchPackage_Panics [OF this] show "p = TypeAssertion" by blast
next
  assume "fetchPackage w t = Panics p"
  from fetchPackage_Panics [OF this]
  show "\<exists>doc versions. registry w t = Document doc \<and>
             map_of doc ''time'' = Some (JObject versions) \<and>
             map_of versions ''unpublished'' = None \<and>
             (\<exists>entry\<in>set (remaining versions). \<forall>s. snd entry \<noteq> JString s)"
    by blast
qed

text \<open>
  A value that is not a string does not always end in a panic: \<^verbatim>\<open>fetchPackage\<close> returns
  the unpublish error when the map has the \<open>unpublished\<close> entry, and the error of
  \<^verbatim>\<open>time.Parse\<close> when a string that does not parse is visited first.
\<close>

theorem resolver_type_assertion_counterexample:
  "fetchPackage (testEnv\<lparr>registry := markedRegistry\<rparr>) ''QuxPackage''
     = Returns (Inl (Errorf ''QuxPackage '' ErrUnpublished [])) \<and>
   fetchPackage (testEnv\<lparr>registry := garbledRegistry\<rparr>) ''QuxPackage''
     = Returns (Inl (Foreign ''cannot parse''))"
  by (simp add: fetchPackage_def markedRegistry_def garbledRegistry_def testEnv_def testParse_def
      delete_def)

theorem resolver_type_assertion_witness:
  "fetchPackage (testEnv\<lparr>registry := numericRegistry\<rparr>) ''QuxPackage'' = Panics TypeAssertion \<and>
   (\<exists>r. fetchPackage testEnv ''FooPackage'' = Returns r) \<and>
   (\<exists>entry\<in>set [(''1.0'', JString ''2021-05-10T14:38:14.000Z''), (''1.1'', JNumber 1620731983)].
       \<forall>s. snd entry \<noteq> JString s)"
proof -
  let ?w = "testEnv\<lparr>registry := numericRegistry\<rparr>"
  let ?versions = "[(''created'', JString ''2021-05-10T14:38:14.000Z''),
                    (''1.0'', JString ''2021-05-10T14:38:14.000Z''),
                    (''1.1'', JNumber 1620731983)]"
  let ?doc = "[(''time'', JObject ?versions)]"
  have a: "registry ?w ''QuxPackage'' = Document ?doc \<and> map_of ?doc ''time'' = Some (JObject ?versions) \<and>
    map_of ?versions ''unpublished'' = None \<and>
    remaining ?versions = [(''1.0'', JString ''2021-05-10T14:38:14.000Z'')] @ (''1.1'', JNumber 1620731983) # [] \<and>
    (\<forall>entry\<in>set [(''1.0'', JString ''2021-05-10T14:38:14.000Z'')].
        timestampOf (time_Parse ?w) (snd entry) \<noteq> None) \<and> (\<forall>s. JNumber 1620731983 \<noteq> JString s)"
    by (simp add: numericRegistry_def remaining_def delete_def timestampOf_def testEnv_def
        testParse_def)
  from resolver_type_assertion [of ?w "''QuxPackage''" ?doc ?versions
      "[(''1.0'', JString ''2021-05-10T14:38:14.000Z'')]" "''1.1''" "JNumber 1620731983" "[]"] a
  have panics: "fetchPackage ?w ''QuxPackage'' = Panics TypeAssertion"
    by blast
  let ?foo = "[(''created'', JString ''2021-03-22T13:07:29.000Z''),
                    (''1.0.0'', JString ''2021-03-22T13:07:29.000Z''),
                    (''modified'', JString ''2021-05-11T18:34:12.000Z''),
                    (''0.9.1'', JString ''2021-03-23T05:17:43.000Z''),
                    (''1.0.1'', JString ''2021-05-11T18:32:01.000Z'')]"
  have b: "registry testEnv ''FooPackage'' = Document fooVersionInfoResponse \<and>
    map_of fooVersionInfoResponse ''time'' = Some (JObject ?foo) \<and>
    (\<forall>entry\<in>set (remaining ?foo). \<exists>s. snd entry = JString s)"
    by (simp add: testEnv_def testRegistry_def fooVersionInfoResponse_def remaining_def delete_def)
  from resolver_type_assertion [of testEnv "''FooPackage''" fooVersionInfoResponse ?foo] b
  have returns: "\<exists>r. fetchPackage testEnv ''FooPackage'' = Returns r"
    by blast
  from resolver_type_assertion [of ?w "''QuxPackage''" _ _ _ _ _ _ TypeAssertion] panics
  obtain doc versions where "registry ?w ''QuxPackage'' = Document doc"
    and "map_of doc ''time'' = Some (JObject versions)"
    and "\<exists>entry\<in>set (remaining versions). \<forall>s. snd entry \<noteq> JString s"
    by blast
  then have "\<exists>entry\<in>set [(''1.0'', JString ''2021-05-10T14:38:14.000Z''), (''1.1'', JNumber 1620731983)].
       \<forall>s. snd entry \<noteq> JString s"
    by (auto simp: numericRegistry_def remaining_def delete_def)
  with panics returns show ?thesis by blast
qed

section \<open>The two aggregation loops\<close>

lemma appendPackages_Some:
  "appendPackages pkgs (map Some vs) = Returns (pkgs @ map release vs)"
  by (induction vs arbitrary: pkgs) (simp_all add: release_def)

lemma appendPackages_None:
  "None \<in> set ps \<Longrightarrow> appendPackages pkgs ps = Panics NilDereference"
proof (induction pkgs ps rule: appendPackages.induct)
qed auto

lemma slicePrefix_fits:
  "high \<le> length s \<Longrightarrow> slicePrefix (length s + extra) s high = Returns (map Some (take high s))"
  by (simp add: slicePrefix_def)

lemma slicePrefix_beyond:
  "length s < high \<Longrightarrow>
     slicePrefix (length s + extra) s high =
       (if high \<le> length s + extra then Returns (map Some s @ replicate (high - length s) None)
        else Panics SliceBounds)"
  by (simp add: slicePrefix_def)

lemma criticalLoop_Returns:
  assumes "\<forall>t\<in>set ts. \<forall>p. fetchPackage w t \<noteq> Panics p"
  shows "criticalLoop w ts (pkgs, errs) =
     Returns (pkgs @ concat (map (\<lambda>t. map release (resolved w t)) ts),
              errs @ concat (map (failure w) ts))"
  using assms
proof (induction ts arbitrary: pkgs errs)
  case Nil
  then show ?case by simp
next
  case (Cons t ts)
  from Cons.prems have rest: "\<forall>t\<in>set ts. \<forall>p. fetchPackage w t \<noteq> Panics p" by simp
  show ?case
  proof (cases "fetchPackage w t")
    case (Returns r)
    then show ?thesis
      by (cases r)
        (simp_all add: criticalTask_def resolved_def failure_def appendPackages_Some
          Cons.IH [OF rest])
  next
    case (Panics p)
    with Cons.prems show ?thesis by simp
  qed
qed

lemma criticalLoop_Panics:
  assumes "t \<in> set ts" and "fetchPackage w t = Panics p"
  shows "\<exists>q. criticalLoop w ts (pkgs, errs) = Panics q"
  using assms(1)
proof (induction ts arbitrary: pkgs errs)
  case Nil
  then show ?case by simp
next
  case (Cons u ts)
  show ?case
  proof (cases "fetchPackage w u")
    case (Panics q)
    then show ?thesis by (simp add: criticalTask_def)
  next
    case (Returns r)
    with assms(2) have "u \<noteq> t" by auto
    with Cons.prems have "t \<in> set ts" by simp
    from Cons.IH [OF this] Returns show ?thesis
      by (cases r) (simp_all add: criticalTask_def appendPackages_Some)
  qed
qed

lemma discoveryLoop_Returns:
  assumes "\<forall>t\<in>set ts. fits w (lookup0 counts) t"
  shows "discoveryLoop w counts ts (pkgs, errs) =
     Returns (pkgs @ concat (map (\<lambda>t. map release (take (lookup0 counts t) (resolved w t))) ts),
              errs @ concat (map (\<lambda>t. filter (\<lambda>e. \<not> errors_Is e ErrUnpublished) (failure w t)) ts))"
  using assms
proof (induction ts arbitrary: pkgs errs)
  case Nil
  then show ?case by simp
next
  case (Cons t ts)
  from Cons.prems have rest: "\<forall>t\<in>set ts. fits w (lookup0 counts) t" by simp
  from Cons.prems have this_one: "fits w (lookup0 counts) t" by simp
  show ?case
  proof (cases "fetchPackage w t")
    case (Returns r)
    show ?thesis
    proof (cases r)
      case (Inl err)
      with Returns show ?thesis
        by (simp add: discoveryTask_def resolved_def failure_def Cons.IH [OF rest])
    next
      case (Inr vs)
      with Returns this_one have "lookup0 counts t \<le> length vs"
        by (simp add: fits_def)
      with Returns Inr show ?thesis
        by (simp add: discoveryTask_def resolved_def failure_def slicePrefix_fits
            appendPackages_Some Cons.IH [OF rest])
    qed
  next
    case (Panics p)
    with this_one show ?thesis by (simp add: fits_def)
  qed
qed

lemma discoveryLoop_Panics:
  assumes "t \<in> set ts" and "\<not> fits w (lookup0 counts) t"
  shows "\<exists>q. discoveryLoop w counts ts (pkgs, errs) = Panics q"
  using assms(1)
proof (induction ts arbitrary: pkgs errs)
  case Nil
  then show ?case by simp
next
  case (Cons u ts)
  show ?case
  proof (cases "fits w (lookup0 counts) u")
    case True
    with assms(2) have "u \<noteq> t" by auto
    with Cons.prems have "t \<in> set ts" by simp
    note IH = Cons.IH [OF this]
    show ?thesis
    proof (cases "fetchPackage w u")
      case (Returns r)
      show ?thesis
      proof (cases r)
        case (Inl err)
        with Returns IH show ?thesis
          by (simp add: discoveryTask_def)
      next
        case (Inr vs)
        with Returns True have "lookup0 counts u \<le> length vs"
          by (simp add: fits_def)
        with Returns Inr IH show ?thesis
          by (simp add: discoveryTask_def slicePrefix_fits appendPackages_Some)
      qed
    next
      case (Panics p)
      with True show ?thesis by (simp add: fits_def)
    qed
  next
    case False
    show ?thesis
    proof (cases "fetchPackage w u")
      case (Returns r)
      show ?thesis
      proof (cases r)
        case (Inl err)
        with Returns False show ?thesis by (simp add: fits_def)
      next
        case (Inr vs)
        with Returns False have beyond: "length vs < lookup0 counts u"
          by (simp add: fits_def)
        show ?thesis
        proof (cases "lookup0 counts u \<le> length vs + spare w (length vs)")
          case True
          from beyond have "None \<in> set (map Some vs @ replicate (lookup0 counts u - length vs) None)"
            by simp
          from appendPackages_None [OF this] Returns Inr True beyond show ?thesis
            by (simp add: discoveryTask_def slicePrefix_beyond)
        next
          case False
          with Returns Inr beyond show ?thesis
            by (simp add: discoveryTask_def slicePrefix_beyond)
        qed
      qed
    next
      case (Panics p)
      then show ?thesis by (simp add: discoveryTask_def)
    qed
  qed
qed

lemma lookup0_fold:
  "lookup0 (fold (\<lambda>pkg m. m(event_Title pkg \<mapsto> lookup0 m (event_Title pkg) + 1)) evs m) t
     = lookup0 m t + count_list (map event_Title evs) t"
  by (induction evs arbitrary: m) (auto simp: lookup0_def)

lemma lookup0_uniquePackages:
  "lookup0 (uniquePackages evs) t = count_list (map event_Title evs) t"
  unfolding uniquePackages_def lookup0_fold by (simp add: lookup0_def)

lemma dom_fold:
  "dom (fold (\<lambda>pkg m. m(event_Title pkg \<mapsto> lookup0 m (event_Title pkg) + 1)) evs m)
     = dom m \<union> set (map event_Title evs)"
  by (induction evs arbitrary: m) auto

lemma dom_uniquePackages: "dom (uniquePackages evs) = set (map event_Title evs)"
  unfolding uniquePackages_def dom_fold by simp

lemma arrival_length:
  assumes "distinct arrival" and "set arrival = set titles"
  shows "take (length (remdups titles)) arrival = arrival"
proof -
  have "length arrival = card (set titles)"
    using assms by (metis distinct_card)
  then show ?thesis
    by (simp add: length_remdups_card_conv)
qed

lemma fetchAllPackages_Document:
  assumes "rss w = RssDocument evs" and "distinct arrival"
    and "set arrival = set (map event_Title evs)"
  shows "fetchAllPackages w arrival = discoveryLoop w (uniquePackages evs) arrival ([], [])"
  using assms by (simp add: fetchAllPackages_def fetchPackageEvents_def arrival_length)

lemma fetchCriticalPackages_arrival:
  assumes "mset arrival = mset pkgList"
  shows "fetchCriticalPackages w pkgList arrival = criticalLoop w arrival ([], [])"
proof -
  from assms have "length arrival = length pkgList"
    by (rule mset_eq_length)
  then show ?thesis
    by (simp add: fetchCriticalPackages_def)
qed

lemma fits_iff:
  "fits w mentions t \<longleftrightarrow>
     (\<forall>p. fetchPackage w t \<noteq> Panics p) \<and>
     (\<forall>vs. fetchPackage w t = Returns (Inr vs) \<longrightarrow> mentions t \<le> length vs)"
  by (auto simp: fits_def split: outcome.splits sum.splits)

lemma discoveryLoop_cases:
  "(\<forall>t\<in>set ts. fits w (lookup0 counts) t) \<and>
   discoveryLoop w counts ts (pkgs, errs) =
     Returns (pkgs @ concat (map (\<lambda>t. map release (take (lookup0 counts t) (resolved w t))) ts),
              errs @ concat (map (\<lambda>t. filter (\<lambda>e. \<not> errors_Is e ErrUnpublished) (failure w t)) ts))
   \<or> (\<exists>t\<in>set ts. \<not> fits w (lookup0 counts) t) \<and>
      (\<exists>q. discoveryLoop w counts ts (pkgs, errs) = Panics q)"
  using discoveryLoop_Returns [of ts w counts pkgs errs] discoveryLoop_Panics [of _ ts w counts pkgs errs]
  by blast

lemma fetchPackage_rss_update: "fetchPackage (w\<lparr>rss := r\<rparr>) t = fetchPackage w t"
  by (simp add: fetchPackage_def split: pkg_response.splits option.splits json.splits)

lemma fetchPackage_Foo:
  "fetchPackage testEnv ''FooPackage'' =
     Returns (Inr [\<lparr>Title = ''FooPackage'', CreatedDate = 1620757921, Version = ''1.0.1'',
                     Unpublished = False\<rparr>,
                   \<lparr>Title = ''FooPackage'', CreatedDate = 1616476663, Version = ''0.9.1'',
                     Unpublished = False\<rparr>,
                   \<lparr>Title = ''FooPackage'', CreatedDate = 1616418449, Version = ''1.0.0'',
                     Unpublished = False\<rparr>])"
  by (simp add: fetchPackage_def testEnv_def testRegistry_def fooVersionInfoResponse_def
      delete_def testParse_def SliceStable_def)

lemma fetchPackage_Bar:
  "fetchPackage testEnv ''BarPackage'' =
     Returns (Inr [\<lparr>Title = ''BarPackage'', CreatedDate = 1620753782, Version = ''0.5.0-alpha'',
                     Unpublished = False\<rparr>,
                   \<lparr>Title = ''BarPackage'', CreatedDate = 1616420716, Version = ''0.4.0'',
                     Unpublished = False\<rparr>])"
  by (simp add: fetchPackage_def testEnv_def testRegistry_def barVersionInfoResponse_def
      delete_def testParse_def SliceStable_def)

lemma fetchPackage_Baz:
  "fetchPackage testEnv ''BazPackage'' =
     Returns (Inr [\<lparr>Title = ''BazPackage'', CreatedDate = 1620742785, Version = ''1.1'',
                     Unpublished = False\<rparr>,
                   \<lparr>Title = ''BazPackage'', CreatedDate = 1620742712, Version = ''1.0'',
                     Unpublished = False\<rparr>])"
  by (simp add: fetchPackage_def testEnv_def testRegistry_def bazVersionInfoResponse_def
      delete_def testParse_def SliceStable_def)

lemma fetchPackage_Qux:
  "fetchPackage testEnv ''QuxPackage'' = Returns (Inl (Errorf ''QuxPackage '' ErrUnpublished []))"
  by (simp add: fetchPackage_def testEnv_def testRegistry_def quxVersionInfoResponse_def)

lemma fetchPackage_other:
  "fetchPackage testEnv ''QuuxPackage'' =
     Returns (Inl (Errorf ''failed to fetch npm package version data: '' (Foreign ''404 Not Found'') []))"
  by (simp add: fetchPackage_def testEnv_def testRegistry_def notFound_def)

lemma rss_testEnv: "rss testEnv = RssDocument npmLatestPackagesResponse"
  by (simp add: testEnv_def)

lemma spare_testEnv: "spare testEnv n = (if n = 3 then 1 else 0)"
  by (simp add: testEnv_def)

lemma release_simps:
  "Name (release v) = Title v" "feeds_Version (release v) = Version v"
  "feeds_CreatedDate (release v) = CreatedDate v" "Type (release v) = FeedName"
  by (simp_all add: release_def NewPackage_def)

lemma resolved_cases:
  "fetchPackage w t = Returns (Inr (resolved w t)) \<or> resolved w t = []"
proof (cases "fetchPackage w t")
  case (Returns r)
  then show ?thesis by (cases r) (simp_all add: resolved_def)
next
  case (Panics p)
  then show ?thesis by (simp add: resolved_def)
qed

lemma resolved_Title: "v \<in> set (resolved w t) \<Longrightarrow> Title v = t"
  using resolved_cases [of w t] by (auto dest: fetchPackage_Title)

lemma resolved_sorted: "sorted_wrt (\<lambda>a b. CreatedDate b \<le> CreatedDate a) (resolved w t)"
  using resolved_cases [of w t] by (auto dest: fetchPackage_sorted)

lemma filter_concat_names:
  assumes "\<forall>t\<in>set ts. \<forall>e\<in>set (f t). Name e = t"
  shows "filter (\<lambda>e. Name e = P) (concat (map f ts)) = concat (map f (filter (\<lambda>t. t = P) ts))"
  using assms
proof (induction ts)
  case Nil
  then show ?case by simp
next
  case (Cons t ts)
  then have "filter (\<lambda>e. Name e = P) (f t) = (if t = P then f t else [])"
    by (auto intro: filter_True filter_False)
  with Cons show ?case by simp
qed

lemma filter_eq_singleton:
  "distinct ts \<Longrightarrow> P \<in> set ts \<Longrightarrow> filter (\<lambda>t. t = P) ts = [P]"
  by (induction ts) (auto intro: filter_False)

lemma sorted_wrt_take:
  "sorted_wrt R xs \<Longrightarrow> sorted_wrt R (take n xs)"
  by (metis append_take_drop_id sorted_wrt_append)

lemma newest_prefix:
  assumes "sorted_wrt (\<lambda>a b. CreatedDate b \<le> CreatedDate a) vs"
  shows "\<forall>a\<in>set (take k vs). \<forall>b\<in>set (drop k vs). CreatedDate b \<le> CreatedDate a"
proof -
  from assms have "sorted_wrt (\<lambda>a b. CreatedDate b \<le> CreatedDate a) (take k vs @ drop k vs)"
    by simp
  then show ?thesis
    unfolding sorted_wrt_append by blast
qed

lemma Latest_nonempty:
  assumes "(case packages feed of None \<Rightarrow> fetchAllPackages w arrival
            | Some pkgList \<Rightarrow> fetchCriticalPackages w pkgList arrival) = Returns (pkgs, errs)"
    and "pkgs \<noteq> []"
  shows "Latest w feed arrival cutoff =
     Returns (ApplyCutoff (SliceStable (\<lambda>a b. feeds_CreatedDate b < feeds_CreatedDate a) pkgs) cutoff,
              errs)"
  using assms by (simp add: Latest_def)

lemma Latest_empty:
  assumes "(case packages feed of None \<Rightarrow> fetchAllPackages w arrival
            | Some pkgList \<Rightarrow> fetchCriticalPackages w pkgList arrival) = Returns ([], errs)"
  shows "Latest w feed arrival cutoff = Returns ([], errs @ [ErrNoPackagesPolled])"
  using assms by (simp add: Latest_def)

lemmas aggregation_defs =
  fetchAllPackages_def fetchPackageEvents_def rss_testEnv npmLatestPackagesResponse_def
  uniquePackages_def lookup0_def discoveryTask_def slicePrefix_def spare_testEnv
  fetchCriticalPackages_def criticalTask_def
  fetchPackage_Foo fetchPackage_Bar fetchPackage_Baz fetchPackage_Qux fetchPackage_other
  NewPackage_def FeedName_def

lemma fetchAllPackages_test:
  "fetchAllPackages testEnv [''QuxPackage'', ''BazPackage'', ''BarPackage'', ''FooPackage''] =
     Returns ([\<lparr>Name = ''BazPackage'', feeds_Version = ''1.1'', feeds_CreatedDate = 1620742785,
                  Type = ''npm''\<rparr>,
               \<lparr>Name = ''BazPackage'', feeds_Version = ''1.0'', feeds_CreatedDate = 1620742712,
                  Type = ''npm''\<rparr>,
               \<lparr>Name = ''BarPackage'', feeds_Version = ''0.5.0-alpha'',
                  feeds_CreatedDate = 1620753782, Type = ''npm''\<rparr>,
               \<lparr>Name = ''FooPackage'', feeds_Version = ''1.0.1'', feeds_CreatedDate = 1620757921,
                  Type = ''npm''\<rparr>], [])"
  by (simp add: aggregation_defs)

lemma Latest_watch_test:
  "Latest testEnv (watchFeed [''FooPackage'', ''BarPackage'']) [''BarPackage'', ''FooPackage'']
      1616420716 =
     Returns ([\<lparr>Name = ''FooPackage'', feeds_Version = ''1.0.1'', feeds_CreatedDate = 1620757921,
                  Type = ''npm''\<rparr>,
               \<lparr>Name = ''BarPackage'', feeds_Version = ''0.5.0-alpha'',
                  feeds_CreatedDate = 1620753782, Type = ''npm''\<rparr>,
               \<lparr>Name = ''FooPackage'', feeds_Version = ''0.9.1'', feeds_CreatedDate = 1616476663,
                  Type = ''npm''\<rparr>], [])"
  by (simp add: Latest_def watchFeed_def aggregation_defs SliceStable_def ApplyCutoff_def)

lemma Latest_unfold:
  assumes "(case packages feed of None \<Rightarrow> fetchAllPackages w arrival
            | Some pkgList \<Rightarrow> fetchCriticalPackages w pkgList arrival) = Returns (pkgs, errs)"
  shows "Latest w feed arrival cutoff =
     Returns (ApplyCutoff (SliceStable (\<lambda>a b. feeds_CreatedDate b < feeds_CreatedDate a) pkgs) cutoff,
              if pkgs = [] then errs @ [ErrNoPackagesPolled] else errs)"
  using assms by (simp add: Latest_def SliceStable_def ApplyCutoff_def)

lemma Latest_Returns:
  assumes "Latest w feed arrival cutoff = Returns (out, errs)"
  obtains pkgs errs0 where
    "(case packages feed of None \<Rightarrow> fetchAllPackages w arrival
      | Some pkgList \<Rightarrow> fetchCriticalPackages w pkgList arrival) = Returns (pkgs, errs0)"
    and "out = ApplyCutoff (SliceStable (\<lambda>a b. feeds_CreatedDate b < feeds_CreatedDate a) pkgs) cutoff"
    and "errs = (if pkgs = [] then errs0 @ [ErrNoPackagesPolled] else errs0)"
proof (cases "case packages feed of None \<Rightarrow> fetchAllPackages w arrival
      | Some pkgList \<Rightarrow> fetchCriticalPackages w pkgList arrival")
  case (Returns r)
  obtain pkgs errs0 where r: "r = (pkgs, errs0)" by (cases r)
  from Latest_unfold [OF Returns [unfolded r], of cutoff] assms that [OF Returns [unfolded r]]
  show ?thesis by simp
next
  case (Panics p)
  with assms show ?thesis by (simp add: Latest_def)
qed

lemma criticalLoop_cases:
  "(\<forall>t\<in>set ts. \<forall>p. fetchPackage w t \<noteq> Panics p) \<and>
   criticalLoop w ts (pkgs, errs) =
     Returns (pkgs @ concat (map (\<lambda>t. map release (resolved w t)) ts),
              errs @ concat (map (failure w) ts))
   \<or> (\<exists>q. criticalLoop w ts (pkgs, errs) = Panics q)"
  using criticalLoop_Returns [of ts w pkgs errs] criticalLoop_Panics [of _ ts w _ pkgs errs]
  by blast

lemma fetchCriticalPackages_Returns:
  assumes "mset arrival = mset pkgList"
    and "fetchCriticalPackages w pkgList arrival = Returns (pkgs, errs)"
  shows "pkgs = concat (map (\<lambda>t. map release (resolved w t)) arrival)"
    and "errs = concat (map (failure w) arrival)"
  using criticalLoop_cases [of arrival w "[]" "[]"] assms(2)
  unfolding fetchCriticalPackages_arrival [OF assms(1)] by auto

lemma fetchAllPackages_Returns:
  assumes "rss w = RssDocument evs" and "distinct arrival"
    and "set arrival = set (map event_Title evs)"
    and "fetchAllPackages w arrival = Returns (pkgs, errs)"
  shows "pkgs = concat (map (\<lambda>t. map release (take (count_list (map event_Title evs) t)
                                                 (resolved w t))) arrival)"
    and "errs = concat (map (\<lambda>t. filter (\<lambda>e. \<not> errors_Is e ErrUnpublished) (failure w t)) arrival)"
    and "\<forall>t\<in>set arrival. fits w (count_list (map event_Title evs)) t"
proof -
  have counts: "lookup0 (uniquePackages evs) = count_list (map event_Title evs)"
    by (rule ext) (rule lookup0_uniquePackages)
  note cases = discoveryLoop_cases [of arrival w "uniquePackages evs" "[]" "[]",
      folded fetchAllPackages_Document [OF assms(1-3)], unfolded counts]
  from cases assms(4)
  show "pkgs = concat (map (\<lambda>t. map release (take (count_list (map event_Title evs) t)
                                                 (resolved w t))) arrival)"
    and "errs = concat (map (\<lambda>t. filter (\<lambda>e. \<not> errors_Is e ErrUnpublished) (failure w t)) arrival)"
    and "\<forall>t\<in>set arrival. fits w (count_list (map event_Title evs)) t"
    by auto
qed

lemma fetchAllPackages_no_feed:
  assumes "\<forall>evs. rss w \<noteq> RssDocument evs"
  shows "\<exists>e. fetchAllPackages w arrival = Returns ([], [e])"
  using assms by (cases "rss w") (simp_all add: fetchAllPackages_def fetchPackageEvents_def)

lemma resolved_failed: "fetchPackage w t = Returns (Inl e) \<Longrightarrow> resolved w t = []"
  by (simp add: resolved_def)

lemma failure_failed:
  "fetchPackage w t = Returns (Inl e) \<Longrightarrow>
     failure w t = [if \<not> errors_Is e ErrUnpublished then PackagePollError t e else e]"
  by (simp add: failure_def)

lemma failure_resolved: "fetchPackage w t = Returns (Inr vs) \<Longrightarrow> failure w t = []"
  by (simp add: failure_def)

lemma resolved_resolved: "fetchPackage w t = Returns (Inr vs) \<Longrightarrow> resolved w t = vs"
  by (simp add: resolved_def)

lemma concat_map_Nil: "(\<forall>t\<in>set ts. f t = []) \<Longrightarrow> concat (map f ts) = []"
  by (induction ts) simp_all

lemma length_concat_singletons:
  "(\<forall>t\<in>set ts. length (f t) = 1) \<Longrightarrow> length (concat (map f ts)) = length ts"
  by (induction ts) simp_all

lemma set_ApplyCutoff_SliceStable:
  "set (ApplyCutoff (SliceStable (\<lambda>a b. feeds_CreatedDate b < feeds_CreatedDate a) pkgs) cutoff)
     \<subseteq> set pkgs"
  by (auto simp: ApplyCutoff_def set_SliceStable)

lemma names_critical:
  "x \<in> set (concat (map (\<lambda>t. map release (resolved w t)) ts)) \<Longrightarrow>
     \<exists>t\<in>set ts. Name x = t \<and> resolved w t \<noteq> []"
proof -
  assume "x \<in> set (concat (map (\<lambda>t. map release (resolved w t)) ts))"
  then obtain t v where t: "t \<in> set ts" and v: "v \<in> set (resolved w t)" and x: "x = release v"
    by auto
  from v have "Title v = t" by (rule resolved_Title)
  with t v x show ?thesis
    by (auto simp: release_simps)
qed

lemma names_discovery:
  "x \<in> set (concat (map (\<lambda>t. map release (take (n t) (resolved w t))) ts)) \<Longrightarrow>
     \<exists>t\<in>set ts. Name x = t \<and> resolved w t \<noteq> []"
proof -
  assume "x \<in> set (concat (map (\<lambda>t. map release (take (n t) (resolved w t))) ts))"
  then obtain t v where t: "t \<in> set ts" and v: "v \<in> set (resolved w t)" and x: "x = release v"
    by (auto dest: in_set_takeD)
  from v have "Title v = t" by (rule resolved_Title)
  with t v x show ?thesis
    by (auto simp: release_simps)
qed

lemma failure_other:
  assumes "t \<noteq> P"
  shows "Errorf (P @ '' '') ErrUnpublished [] \<notin> set (failure w t)"
proof (cases "fetchPackage w t")
  case (Returns r)
  show ?thesis
  proof (cases r)
    case (Inl err)
    show ?thesis
    proof (cases "errors_Is err ErrUnpublished")
      case True
      from fetchPackage_Inl_unpublished [OF Returns [unfolded Inl] True] True Returns Inl assms
      show ?thesis by (simp add: failure_def)
    next
      case False
      with Returns Inl show ?thesis by (simp add: failure_def)
    qed
  next
    case (Inr vs)
    with Returns show ?thesis by (simp add: failure_def)
  qed
next
  case (Panics p)
  then show ?thesis by (simp add: failure_def)
qed

lemma count_unpublished:
  assumes "failure w P = [e]" and "e = Errorf (P @ '' '') ErrUnpublished []"
  shows "count_list (concat (map (failure w) ts)) e = count_list ts P"
proof (induction ts)
  case Nil
  then show ?case by simp
next
  case (Cons t ts)
  show ?case
  proof (cases "t = P")
    case True
    with Cons assms(1) show ?thesis by simp
  next
    case False
    from failure_other [OF this, of w] have "count_list (failure w t) e = 0"
      by (simp add: assms(2) count_list_0_iff)
    with Cons False show ?thesis by simp
  qed
qed

lemma failure_not_unpublished_of:
  assumes "fetchPackage w P = Returns (Inl e)" and "errors_Is e ErrUnpublished"
  shows "PackagePollError P c \<notin> set (concat (map (failure w) ts))"
proof -
  have "PackagePollError P c \<notin> set (failure w t)" for t
  proof (cases "t = P")
    case True
    with assms show ?thesis by (auto simp: failure_def)
  next
    case False
    then show ?thesis
      by (auto simp: failure_def split: outcome.splits sum.splits if_splits)
  qed
  then show ?thesis by auto
qed

lemma Latest_unpublished_watch:
  "Latest testEnv (watchFeed [''FooPackage'', ''QuxPackage'']) [''QuxPackage'', ''FooPackage'']
       1620000000 =
     Returns ([\<lparr>Name = ''FooPackage'', feeds_Version = ''1.0.1'', feeds_CreatedDate = 1620757921,
                  Type = ''npm''\<rparr>],
              [Errorf ''QuxPackage '' ErrUnpublished []])"
  by (simp add: Latest_def watchFeed_def aggregation_defs SliceStable_def ApplyCutoff_def)

lemma Latest_discovery_test:
  "Latest testEnv discoveryFeed [''QuxPackage'', ''BazPackage'', ''BarPackage'', ''FooPackage''] 0 =
     Returns ([\<lparr>Name = ''FooPackage'', feeds_Version = ''1.0.1'', feeds_CreatedDate = 1620757921,
                  Type = ''npm''\<rparr>,
               \<lparr>Name = ''BarPackage'', feeds_Version = ''0.5.0-alpha'',
                  feeds_CreatedDate = 1620753782, Type = ''npm''\<rparr>,
               \<lparr>Name = ''BazPackage'', feeds_Version = ''1.1'', feeds_CreatedDate = 1620742785,
                  Type = ''npm''\<rparr>,
               \<lparr>Name = ''BazPackage'', feeds_Version = ''1.0'', feeds_CreatedDate = 1620742712,
                  Type = ''npm''\<rparr>], [])"
  by (simp add: Latest_def discoveryFeed_def fetchAllPackages_test SliceStable_def ApplyCutoff_def)

lemma concat_map_skip:
  assumes "f F = []" and "\<forall>t\<in>set ts. t \<noteq> F \<longrightarrow> f t = g t"
  shows "concat (map f ts) = concat (map g (filter (\<lambda>t. t \<noteq> F) ts))"
  using assms(2) by (induction ts) (simp_all add: assms(1))

lemma concat_map_only:
  assumes "count_list ts F = 1" and "\<forall>t\<in>set ts. t \<noteq> F \<longrightarrow> f t = []"
  shows "concat (map f ts) = f F"
  using assms
proof (induction ts)
  case Nil
  then show ?case by simp
next
  case (Cons t ts)
  show ?case
  proof (cases "t = F")
    case True
    with Cons.prems(1) have "F \<notin> set ts"
      by (simp add: count_list_0_iff)
    with Cons.prems(2) have "concat (map f ts) = []"
      by (intro concat_map_Nil) auto
    with True show ?thesis by simp
  next
    case False
    with Cons show ?thesis by simp
  qed
qed

lemma count_list_distinct:
  "distinct ts \<Longrightarrow> F \<in> set ts \<Longrightarrow> count_list ts F = 1"
  by (induction ts) (auto simp: count_list_0_iff)

lemma PackagePollError_message:
  "strings_Contains (Error (PackagePollError F cause)) F"
  "strings_Contains (Error (PackagePollError F cause)) (Error cause)"
proof -
  have "Error (PackagePollError F cause) = ''Polling for package '' @ F @ ('' returned error: '' @ Error cause)"
    by simp
  then show "strings_Contains (Error (PackagePollError F cause)) F"
    unfolding strings_Contains_def by (simp only: sublist_appendI)
  have "Error (PackagePollError F cause) = (''Polling for package '' @ F @ '' returned error: '') @ Error cause"
    by simp
  then show "strings_Contains (Error (PackagePollError F cause)) (Error cause)"
    unfolding strings_Contains_def by (simp only: sublist_append_leftI)
qed

lemma distinct_concat_names:
  assumes "distinct ts"
    and "\<forall>t\<in>set ts. distinct (map (\<lambda>e. (Name e, feeds_Version e)) (g t))"
    and "\<forall>t\<in>set ts. \<forall>e\<in>set (g t). Name e = t"
  shows "distinct (map (\<lambda>e. (Name e, feeds_Version e)) (concat (map g ts)))"
  using assms
proof (induction ts)
  case Nil
  then show ?case by simp
next
  case (Cons t ts)
  let ?key = "\<lambda>e. (Name e, feeds_Version e)"
  have other: "Name y \<in> set ts" if "y \<in> set (concat (map g ts))" for y
  proof -
    from that obtain u where "u \<in> set ts" and "y \<in> set (g u)" by auto
    with Cons.prems(3) show ?thesis by simp
  qed
  have "?key x \<noteq> ?key y" if "x \<in> set (g t)" and "y \<in> set (concat (map g ts))" for x y
  proof -
    from that(1) Cons.prems(3) have "Name x = t" by simp
    moreover from that(2) have "Name y \<in> set ts" by (rule other)
    moreover from Cons.prems(1) have "t \<notin> set ts" by simp
    ultimately have "Name x \<noteq> Name y" by metis
    then show ?thesis by simp
  qed
  then have disjoint: "?key ` set (g t) \<inter> ?key ` set (concat (map g ts)) = {}"
    by blast
  from Cons have rest: "distinct (map ?key (concat (map g ts)))"
    by simp
  from Cons.prems(2) have first: "distinct (map ?key (g t))"
    by simp
  have "distinct (map ?key (g t) @ map ?key (concat (map g ts)))"
    unfolding distinct_append set_map using first rest disjoint by (intro conjI)
  then show ?case
    by (simp only: list.map concat.simps map_append)
qed

lemma distinct_resolved:
  assumes "\<forall>t doc versions. registry w t = Document doc \<longrightarrow>
      map_of doc ''time'' = Some (JObject versions) \<longrightarrow> distinct (map fst versions)"
  shows "distinct (map (\<lambda>e. (Name e, feeds_Version e)) (map release (take n (resolved w t))))"
proof -
  have "distinct (map Version (resolved w t))"
    using resolved_cases [of w t]
  proof
    assume fetched: "fetchPackage w t = Returns (Inr (resolved w t))"
    show ?thesis
    proof (rule distinct_versions [OF fetched])
      fix doc versions
      assume "registry w t = Document doc" and "map_of doc ''time'' = Some (JObject versions)"
      with assms show "distinct (map fst versions)" by blast
    qed
  next
    assume "resolved w t = []"
    then show ?thesis by simp
  qed
  then have "distinct (take n (map Version (resolved w t)))"
    by (rule distinct_take)
  then have versions: "distinct (map Version (take n (resolved w t)))"
    by (simp only: take_map)
  have "inj_on (\<lambda>v. (Name (release v), feeds_Version (release v))) (set (take n (resolved w t)))"
  proof (rule inj_onI)
    fix x y
    assume "x \<in> set (take n (resolved w t))" and "y \<in> set (take n (resolved w t))"
      and "(Name (release x), feeds_Version (release x)) = (Name (release y), feeds_Version (release y))"
    then have "Version x = Version y" by (simp add: release_simps)
    with versions \<open>x \<in> set (take n (resolved w t))\<close> \<open>y \<in> set (take n (resolved w t))\<close>
    show "x = y"
      by (meson distinct_map inj_onD)
  qed
  moreover from versions have "distinct (take n (resolved w t))"
    by (simp only: distinct_map)
  ultimately have "distinct (map (\<lambda>v. (Name (release v), feeds_Version (release v)))
      (take n (resolved w t)))"
    by (simp only: distinct_map simp_thms)
  then show ?thesis
    by (simp only: map_map comp_def)
qed

lemma distinct_output:
  assumes "distinct (map (\<lambda>e. (Name e, feeds_Version e)) pkgs)"
  shows "distinct (map (\<lambda>e. (Name e, feeds_Version e))
           (ApplyCutoff (SliceStable (\<lambda>a b. feeds_CreatedDate b < feeds_CreatedDate a) pkgs) cutoff))"
proof -
  let ?key = "\<lambda>e. (Name e, feeds_Version e)"
  let ?sorted = "SliceStable (\<lambda>a b. feeds_CreatedDate b < feeds_CreatedDate a) pkgs"
  have "mset (map ?key ?sorted) = mset (map ?key pkgs)"
    unfolding mset_map mset_SliceStable ..
  from mset_eq_imp_distinct_iff [OF this] assms have "distinct (map ?key ?sorted)"
    by (simp only:)
  then show ?thesis
    unfolding ApplyCutoff_def by (rule distinct_map_filter)
qed

lemma testEnv_distinct_keys:
  "\<forall>t doc versions. registry testEnv t = Document doc \<longrightarrow>
      map_of doc ''time'' = Some (JObject versions) \<longrightarrow> distinct (map fst versions)"
  by (auto simp: testEnv_def testRegistry_def fooVersionInfoResponse_def barVersionInfoResponse_def
      bazVersionInfoResponse_def quxVersionInfoResponse_def split: if_splits)

section \<open>Discovery mode\<close>

text \<open>
  C8. In discovery mode, with the goroutines' messages received in any order. When a
  package is mentioned more often than it has resolved versions, the slice expression
  \<^verbatim>\<open>pkgs[:count]\<close> panics if the count exceeds the capacity of the slice, and otherwise
  yields nil pointers behind the versions, the first of which makes the receiving
  loop panic; either way \<^verbatim>\<open>fetchAllPackages\<close> and \<open>Latest\<close> panic. So
  \<^verbatim>\<open>fetchAllPackages\<close> returns only if every resolved package is mentioned at most as
  often as it has versions, and it does return if moreover no resolution panics.
\<close>

theorem discovery_mention_count:
  assumes "rss w = RssDocument evs" and "distinct arrival"
    and "set arrival = set (map event_Title evs)"
  shows "(fetchPackage w t = Returns (Inr vs) \<and> length vs < k \<longrightarrow>
            discoveryTask w t k =
              (if k \<le> length vs + spare w (length vs)
               then Returns (FromPackageChannel (map Some vs @ replicate (k - length vs) None))
               else Panics SliceBounds) \<and>
            appendPackages pkgs (map Some vs @ replicate (k - length vs) None)
              = Panics NilDereference) \<and>
         (t \<in> set (map event_Title evs) \<and> fetchPackage w t = Returns (Inr vs) \<and>
          length vs < count_list (map event_Title evs) t \<longrightarrow>
            (\<exists>p. fetchAllPackages w arrival = Panics p) \<and>
            (packages feed = None \<longrightarrow> (\<exists>p. Latest w feed arrival cutoff = Panics p))) \<and>
         ((\<exists>r. fetchAllPackages w arrival = Returns r) \<longrightarrow>
            (\<forall>t\<in>set (map event_Title evs). \<forall>vs. fetchPackage w t = Returns (Inr vs) \<longrightarrow>
                count_list (map event_Title evs) t \<le> length vs)) \<and>
         ((\<forall>t\<in>set (map event_Title evs).
              (\<forall>p. fetchPackage w t \<noteq> Panics p) \<and>
              (\<forall>vs. fetchPackage w t = Returns (Inr vs) \<longrightarrow>
                  count_list (map event_Title evs) t \<le> length vs)) \<longrightarrow>
            (\<exists>r. fetchAllPackages w arrival = Returns r))"
proof -
  let ?titles = "map event_Title evs"
  let ?counts = "uniquePackages evs"
  have all: "fetchAllPackages w arrival = discoveryLoop w ?counts arrival ([], [])"
    by (rule fetchAllPackages_Document [OF assms])
  have counts: "lookup0 ?counts = count_list ?titles"
    by (rule ext) (rule lookup0_uniquePackages)
  note cases = discoveryLoop_cases [of arrival w ?counts "[]" "[]", folded all, unfolded counts assms(3)]
  have task: "discoveryTask w t k =
        (if k \<le> length vs + spare w (length vs)
         then Returns (FromPackageChannel (map Some vs @ replicate (k - length vs) None))
         else Panics SliceBounds) \<and>
      appendPackages pkgs (map Some vs @ replicate (k - length vs) None) = Panics NilDereference"
    if "fetchPackage w t = Returns (Inr vs) \<and> length vs < k"
  proof -
    from that have "None \<in> set (map Some vs @ replicate (k - length vs) None)"
      by simp
    from appendPackages_None [OF this] that show ?thesis
      by (simp add: discoveryTask_def slicePrefix_beyond)
  qed
  have crash: "(\<exists>p. fetchAllPackages w arrival = Panics p) \<and>
      (packages feed = None \<longrightarrow> (\<exists>p. Latest w feed arrival cutoff = Panics p))"
    if "t \<in> set ?titles \<and> fetchPackage w t = Returns (Inr vs) \<and> length vs < count_list ?titles t"
  proof -
    from that have "\<not> fits w (count_list ?titles) t"
      by (simp add: fits_def)
    with that cases obtain p where "fetchAllPackages w arrival = Panics p"
      by blast
    then show ?thesis
      by (auto simp: Latest_def)
  qed
  have only: "\<forall>t\<in>set ?titles. \<forall>vs. fetchPackage w t = Returns (Inr vs) \<longrightarrow>
                count_list ?titles t \<le> length vs"
    if "\<exists>r. fetchAllPackages w arrival = Returns r"
  proof -
    from that cases have "\<forall>t\<in>set ?titles. fits w (count_list ?titles) t"
      by auto
    then show ?thesis
      by (simp add: fits_iff)
  qed
  have total: "\<exists>r. fetchAllPackages w arrival = Returns r"
    if "\<forall>t\<in>set ?titles.
              (\<forall>p. fetchPackage w t \<noteq> Panics p) \<and>
              (\<forall>vs. fetchPackage w t = Returns (Inr vs) \<longrightarrow> count_list ?titles t \<le> length vs)"
  proof -
    from that have "\<forall>t\<in>set ?titles. fits w (count_list ?titles) t"
      by (simp add: fits_iff)
    with cases show ?thesis
      by blast
  qed
  from task crash only total show ?thesis
    by blast
qed

theorem discovery_mention_count_witness:
  "rss (testEnv\<lparr>rss := RssDocument threeBars\<rparr>) = RssDocument threeBars \<and>
   distinct [''BarPackage''] \<and> set [''BarPackage''] = set (map event_Title threeBars) \<and>
   length [\<lparr>Title = ''BarPackage'', CreatedDate = 1620753782, Version = ''0.5.0-alpha'',
              Unpublished = False\<rparr>,
           \<lparr>Title = ''BarPackage'', CreatedDate = 1616420716, Version = ''0.4.0'',
              Unpublished = False\<rparr>] < count_list (map event_Title threeBars) ''BarPackage'' \<and>
   discoveryTask (testEnv\<lparr>rss := RssDocument threeBars\<rparr>) ''BarPackage'' 3 = Panics SliceBounds \<and>
   (\<exists>p. fetchAllPackages (testEnv\<lparr>rss := RssDocument threeBars\<rparr>) [''BarPackage''] = Panics p) \<and>
   (\<exists>p. Latest (testEnv\<lparr>rss := RssDocument threeBars\<rparr>) discoveryFeed [''BarPackage''] 0
           = Panics p) \<and>
   (\<exists>r. fetchAllPackages testEnv [''QuxPackage'', ''BazPackage'', ''BarPackage'', ''FooPackage'']
           = Returns r) \<and>
   discoveryTask testEnv ''FooPackage'' 4 =
     Returns (FromPackageChannel (map Some fooVersions @ replicate (4 - length fooVersions) None)) \<and>
   appendPackages [] (map Some fooVersions @ replicate (4 - length fooVersions) None)
     = Panics NilDereference"
proof -
  let ?w = "testEnv\<lparr>rss := RssDocument threeBars\<rparr>"
  let ?vs = "[\<lparr>Title = ''BarPackage'', CreatedDate = 1620753782, Version = ''0.5.0-alpha'',
              Unpublished = False\<rparr>,
           \<lparr>Title = ''BarPackage'', CreatedDate = 1616420716, Version = ''0.4.0'',
              Unpublished = False\<rparr>]"
  have a1: "rss ?w = RssDocument threeBars" by simp
  have a2: "distinct [''BarPackage'']" by simp
  have a3: "set [''BarPackage''] = set (map event_Title threeBars)"
    by (simp add: threeBars_def)
  have a4: "fetchPackage ?w ''BarPackage'' = Returns (Inr ?vs)"
    by (simp add: fetchPackage_rss_update fetchPackage_Bar)
  have a5: "length ?vs < count_list (map event_Title threeBars) ''BarPackage''"
    by (simp add: threeBars_def)
  have a6: "''BarPackage'' \<in> set (map event_Title threeBars)"
    by (simp add: threeBars_def)
  have a7: "packages discoveryFeed = None"
    by (simp add: discoveryFeed_def)
  note inst = discovery_mention_count [OF a1 a2 a3, of "''BarPackage''" ?vs _ _ discoveryFeed 0]
  from inst [of 3] a4 have "discoveryTask ?w ''BarPackage'' 3 = Panics SliceBounds"
    by (simp add: spare_testEnv)
  moreover from inst a4 a5 a6 a7
  have "(\<exists>p. fetchAllPackages ?w [''BarPackage''] = Panics p) \<and>
        (\<exists>p. Latest ?w discoveryFeed [''BarPackage''] 0 = Panics p)"
    by blast
  moreover have "(\<exists>r. fetchAllPackages testEnv [''QuxPackage'', ''BazPackage'', ''BarPackage'', ''FooPackage'']
           = Returns r) \<and>
      discoveryTask testEnv ''FooPackage'' 4 =
        Returns (FromPackageChannel (map Some fooVersions @ replicate (4 - length fooVersions) None)) \<and>
      appendPackages [] (map Some fooVersions @ replicate (4 - length fooVersions) None)
        = Panics NilDereference"
  proof -
    let ?evs = npmLatestPackagesResponse
    have b2: "distinct [''QuxPackage'', ''BazPackage'', ''BarPackage'', ''FooPackage'']" by simp
    have b3: "set [''QuxPackage'', ''BazPackage'', ''BarPackage'', ''FooPackage'']
        = set (map event_Title ?evs)"
      by (auto simp: npmLatestPackagesResponse_def)
    have foo: "fetchPackage testEnv ''FooPackage'' = Returns (Inr fooVersions) \<and>
        length fooVersions < 4"
      by (simp add: fetchPackage_Foo fooVersions_def)
    have within: "4 \<le> length fooVersions + spare testEnv (length fooVersions)"
      by (simp add: fooVersions_def spare_testEnv)
    from mp [OF conjunct1 [OF discovery_mention_count [OF rss_testEnv b2 b3,
        where t = "''FooPackage''" and vs = fooVersions and k = 4 and pkgs = "[]"]] foo] within
    have nil: "discoveryTask testEnv ''FooPackage'' 4 =
        Returns (FromPackageChannel (map Some fooVersions @ replicate (4 - length fooVersions) None)) \<and>
      appendPackages [] (map Some fooVersions @ replicate (4 - length fooVersions) None)
        = Panics NilDereference"
      by (simp only: if_True)
    have "\<forall>t\<in>set (map event_Title ?evs).
              (\<forall>p. fetchPackage testEnv t \<noteq> Panics p) \<and>
              (\<forall>vs. fetchPackage testEnv t = Returns (Inr vs) \<longrightarrow>
                  count_list (map event_Title ?evs) t \<le> length vs)"
      by (auto simp: npmLatestPackagesResponse_def fetchPackage_Foo fetchPackage_Bar
          fetchPackage_Baz fetchPackage_Qux)
    with discovery_mention_count [OF rss_testEnv b2 b3]
    have "\<exists>r. fetchAllPackages testEnv [''QuxPackage'', ''BazPackage'', ''BarPackage'', ''FooPackage'']
           = Returns r"
      by blast
    with nil show ?thesis by (intro conjI) simp_all
  qed
  ultimately show ?thesis
    using a1 a2 a3 a5 by (intro conjI) simp_all
qed

text \<open>
  C1. In discovery mode, for a package \<open>P\<close> that the feed mentions \<open>k\<close> times and whose
  resolved history \<open>vs\<close> (newest first) has at least \<open>k\<close> versions: the releases of \<open>P\<close>
  in the output of the poll, \<^verbatim>\<open>fetchAllPackages\<close>, are exactly the first \<open>k\<close> elements of
  \<open>vs\<close>, in that order; there are \<open>k\<close> of them; and none of the other versions of \<open>P\<close> is
  newer than any of them. Of these \<open>k\<close> releases, \<open>Latest\<close> returns those that are strictly
  after its cutoff.
\<close>

theorem discovery_newest_versions:
  assumes "packages feed = None" and "rss w = RssDocument evs" and "distinct arrival"
    and "set arrival = set (map event_Title evs)"
    and "fetchPackage w P = Returns (Inr vs)"
    and "k = count_list (map event_Title evs) P" and "0 < k" and "k \<le> length vs"
    and "fetchAllPackages w arrival = Returns (pkgs, errs)"
  shows "filter (\<lambda>e. Name e = P) pkgs = map release (take k vs) \<and>
         length (filter (\<lambda>e. Name e = P) pkgs) = k \<and>
         (\<forall>a\<in>set (take k vs). \<forall>b\<in>set (drop k vs). CreatedDate b \<le> CreatedDate a) \<and>
         (\<exists>out. Latest w feed arrival cutoff = Returns (out, errs) \<and>
            filter (\<lambda>e. Name e = P) out =
              filter (\<lambda>e. cutoff < feeds_CreatedDate e) (map release (take k vs)))"
proof -
  let ?titles = "map event_Title evs"
  let ?counts = "uniquePackages evs"
  let ?f = "\<lambda>t. map release (take (count_list ?titles t) (resolved w t))"
  let ?date = feeds_CreatedDate
  have all: "fetchAllPackages w arrival = discoveryLoop w ?counts arrival ([], [])"
    by (rule fetchAllPackages_Document [OF assms(2-4)])
  have counts: "lookup0 ?counts = count_list ?titles"
    by (rule ext) (rule lookup0_uniquePackages)
  from discoveryLoop_cases [of arrival w ?counts "[]" "[]", folded all, unfolded counts] assms(9)
  have pkgs: "pkgs = concat (map ?f arrival)"
    by auto
  have names: "\<forall>t\<in>set arrival. \<forall>e\<in>set (?f t). Name e = t"
    by (auto simp: release_simps dest: in_set_takeD resolved_Title)
  from assms(6,7) have "P \<in> set ?titles"
    by (metis count_list_0_iff less_numeral_extra(3))
  with assms(4) have "P \<in> set arrival" by simp
  with assms(3) have one: "filter (\<lambda>t. t = P) arrival = [P]"
    by (simp add: filter_eq_singleton)
  from assms(5) have resolved: "resolved w P = vs"
    by (simp add: resolved_def)
  have mine: "filter (\<lambda>e. Name e = P) pkgs = map release (take k vs)"
    unfolding pkgs filter_concat_names [OF names] one
    by (simp add: resolved assms(6))
  from assms(8) have count: "length (filter (\<lambda>e. Name e = P) pkgs) = k"
    by (simp add: mine)
  have sorted: "sorted_wrt (\<lambda>a b. CreatedDate b \<le> CreatedDate a) vs"
    by (rule fetchPackage_sorted [OF assms(5)])
  have newest: "\<forall>a\<in>set (take k vs). \<forall>b\<in>set (drop k vs). CreatedDate b \<le> CreatedDate a"
    by (rule newest_prefix [OF sorted])
  from count assms(7) have "pkgs \<noteq> []" by auto
  with assms(1,9) have latest: "Latest w feed arrival cutoff =
      Returns (ApplyCutoff (SliceStable (\<lambda>a b. ?date b < ?date a) pkgs) cutoff, errs)"
    by (intro Latest_nonempty) simp_all
  have "sorted_wrt (\<lambda>a b. ?date b \<le> ?date a) (map release (take k vs))"
    using sorted_wrt_take [OF sorted, of k] by (simp add: sorted_wrt_map release_simps)
  then have kept: "SliceStable (\<lambda>a b. ?date b < ?date a) (map release (take k vs))
      = map release (take k vs)"
    by (rule SliceStable_sorted_id)
  have "filter (\<lambda>e. Name e = P) (ApplyCutoff (SliceStable (\<lambda>a b. ?date b < ?date a) pkgs) cutoff)
      = filter (\<lambda>e. cutoff < ?date e) (SliceStable (\<lambda>a b. ?date b < ?date a)
          (filter (\<lambda>e. Name e = P) pkgs))"
    by (simp add: ApplyCutoff_def filter_SliceStable) (metis filter_SliceStable filter_filter conj_commute)
  then have "filter (\<lambda>e. Name e = P) (ApplyCutoff (SliceStable (\<lambda>a b. ?date b < ?date a) pkgs) cutoff)
      = filter (\<lambda>e. cutoff < ?date e) (map release (take k vs))"
    by (simp only: mine kept)
  with latest mine count newest show ?thesis
    by blast
qed

text \<open>
  The cutoff then applies as to any release: with the feed of the tests and a cutoff
  between the releases of BazPackage and those of BarPackage, \<open>Latest\<close> drops the two
  versions of BazPackage that \<^verbatim>\<open>fetchAllPackages\<close> collected.
\<close>

lemma discovery_cutoff_example:
  "count_list (map event_Title npmLatestPackagesResponse) ''BazPackage'' = 2 \<and>
   fetchPackage testEnv ''BazPackage'' =
     Returns (Inr [\<lparr>Title = ''BazPackage'', CreatedDate = 1620742785, Version = ''1.1'',
                     Unpublished = False\<rparr>,
                   \<lparr>Title = ''BazPackage'', CreatedDate = 1620742712, Version = ''1.0'',
                     Unpublished = False\<rparr>]) \<and>
   Latest testEnv discoveryFeed [''QuxPackage'', ''BazPackage'', ''BarPackage'', ''FooPackage'']
       1620750000 =
     Returns ([\<lparr>Name = ''FooPackage'', feeds_Version = ''1.0.1'', feeds_CreatedDate = 1620757921,
                  Type = ''npm''\<rparr>,
               \<lparr>Name = ''BarPackage'', feeds_Version = ''0.5.0-alpha'',
                  feeds_CreatedDate = 1620753782, Type = ''npm''\<rparr>], [])"
  by (simp add: Latest_def discoveryFeed_def fetchAllPackages_test fetchPackage_Baz
      npmLatestPackagesResponse_def SliceStable_def ApplyCutoff_def)

theorem discovery_newest_versions_witness:
  "packages discoveryFeed = None \<and> rss testEnv = RssDocument npmLatestPackagesResponse \<and>
   distinct [''QuxPackage'', ''BazPackage'', ''BarPackage'', ''FooPackage''] \<and>
   set [''QuxPackage'', ''BazPackage'', ''BarPackage'', ''FooPackage'']
     = set (map event_Title npmLatestPackagesResponse) \<and>
   (2::nat) = count_list (map event_Title npmLatestPackagesResponse) ''BazPackage'' \<and>
   (\<exists>pkgs vs. fetchPackage testEnv ''BazPackage'' = Returns (Inr vs) \<and> 2 \<le> length vs \<and>
      filter (\<lambda>e. Name e = ''BazPackage'') pkgs = map release (take 2 vs) \<and>
      length (filter (\<lambda>e. Name e = ''BazPackage'') pkgs) = 2 \<and>
      (\<exists>out. Latest testEnv discoveryFeed
                [''QuxPackage'', ''BazPackage'', ''BarPackage'', ''FooPackage''] 1620742712
              = Returns (out, []) \<and>
         filter (\<lambda>e. Name e = ''BazPackage'') out =
           filter (\<lambda>e. 1620742712 < feeds_CreatedDate e) (map release (take 2 vs))))"
proof -
  let ?arrival = "[''QuxPackage'', ''BazPackage'', ''BarPackage'', ''FooPackage'']"
  have a1: "packages discoveryFeed = None" by (simp add: discoveryFeed_def)
  have a3: "distinct ?arrival" by simp
  have a4: "set ?arrival = set (map event_Title npmLatestPackagesResponse)"
    by (auto simp: npmLatestPackagesResponse_def)
  have a6: "(2::nat) = count_list (map event_Title npmLatestPackagesResponse) ''BazPackage''"
    by (simp add: npmLatestPackagesResponse_def)
  have a7: "(0::nat) < 2" by simp
  have a8: "(2::nat) \<le> length [\<lparr>Title = ''BazPackage'', CreatedDate = 1620742785, Version = ''1.1'',
                     Unpublished = False\<rparr>,
                   \<lparr>Title = ''BazPackage'', CreatedDate = 1620742712, Version = ''1.0'',
                     Unpublished = False\<rparr>]" by simp
  from discovery_newest_versions [OF a1 rss_testEnv a3 a4 fetchPackage_Baz a6 a7 a8
      fetchAllPackages_test, of 1620742712] a1 rss_testEnv a3 a4 a6 a8 fetchPackage_Baz
  show ?thesis
    by blast
qed

section \<open>Ordering, cutoff and the empty result\<close>

text \<open>
  C2. Whenever \<open>Latest\<close> returns a non-empty sequence \<open>out\<close>, from the releases \<open>pkgs\<close> that
  the aggregation collected in their order of arrival: \<open>out\<close> is in descending order
  of publish timestamp, no release being older than a later one; releases of one and
  the same timestamp stand in their order of arrival; the order is strictly descending
  when no two collected releases share a timestamp; every release of \<open>out\<close> is strictly
  after the cutoff; \<open>out\<close> holds exactly the collected releases that are strictly after
  the cutoff, in the order they have in the sorted sequence.
\<close>

theorem latest_sorted_after_cutoff:
  assumes "Latest w feed arrival cutoff = Returns (out, errs)" and "out \<noteq> []"
  shows "\<exists>pkgs. (case packages feed of None \<Rightarrow> fetchAllPackages w arrival
                 | Some pkgList \<Rightarrow> fetchCriticalPackages w pkgList arrival) = Returns (pkgs, errs) \<and>
           sorted_wrt (\<lambda>a b. feeds_CreatedDate b \<le> feeds_CreatedDate a) out \<and>
           (\<forall>d. filter (\<lambda>e. feeds_CreatedDate e = d) out =
                  filter (\<lambda>e. feeds_CreatedDate e = d) (ApplyCutoff pkgs cutoff)) \<and>
           (distinct (map feeds_CreatedDate pkgs) \<longrightarrow>
              sorted_wrt (\<lambda>a b. feeds_CreatedDate b < feeds_CreatedDate a) out) \<and>
           (\<forall>e\<in>set out. cutoff < feeds_CreatedDate e) \<and>
           mset out = filter_mset (\<lambda>e. cutoff < feeds_CreatedDate e) (mset pkgs) \<and>
           subseq out (SliceStable (\<lambda>a b. feeds_CreatedDate b < feeds_CreatedDate a) pkgs)"
proof -
  let ?date = feeds_CreatedDate
  let ?aggregate = "case packages feed of None \<Rightarrow> fetchAllPackages w arrival
                 | Some pkgList \<Rightarrow> fetchCriticalPackages w pkgList arrival"
  from assms obtain pkgs where aggregate: "?aggregate = Returns (pkgs, errs)"
    and out: "out = ApplyCutoff (SliceStable (\<lambda>a b. ?date b < ?date a) pkgs) cutoff"
    by (auto simp: Latest_def split: outcome.splits if_splits)
  let ?sorted = "SliceStable (\<lambda>a b. ?date b < ?date a) pkgs"
  have sorted: "sorted_wrt (\<lambda>a b. ?date b \<le> ?date a) out"
    unfolding out ApplyCutoff_def by (intro sorted_wrt_filter sorted_SliceStable)
  have ties: "filter (\<lambda>e. ?date e = d) out = filter (\<lambda>e. ?date e = d) (ApplyCutoff pkgs cutoff)" for d
  proof -
    have "filter (\<lambda>e. ?date e = d) out = filter (\<lambda>e. cutoff < ?date e) (filter (\<lambda>e. ?date e = d) ?sorted)"
      unfolding out ApplyCutoff_def filter_filter by (rule filter_cong) auto
    also have "\<dots> = filter (\<lambda>e. cutoff < ?date e) (filter (\<lambda>e. ?date e = d) pkgs)"
      by (simp only: stable_SliceStable)
    also have "\<dots> = filter (\<lambda>e. ?date e = d) (ApplyCutoff pkgs cutoff)"
      unfolding ApplyCutoff_def filter_filter by (rule filter_cong) auto
    finally show ?thesis .
  qed
  have strict: "sorted_wrt (\<lambda>a b. ?date b < ?date a) out" if "distinct (map ?date pkgs)"
  proof -
    have "mset (map ?date ?sorted) = mset (map ?date pkgs)"
      unfolding mset_map mset_SliceStable ..
    with that have "distinct (map ?date ?sorted)"
      by (metis mset_eq_imp_distinct_iff)
    then have "distinct (map ?date out)"
      unfolding out ApplyCutoff_def by (rule distinct_map_filter)
    with sorted show ?thesis
      by (rule strict_sorted_if_distinct)
  qed
  have after: "\<forall>e\<in>set out. cutoff < ?date e"
    by (simp add: out ApplyCutoff_def)
  have kept: "mset out = filter_mset (\<lambda>e. cutoff < ?date e) (mset pkgs)"
    by (simp add: out ApplyCutoff_def mset_SliceStable)
  have order: "subseq out ?sorted"
    by (simp add: out ApplyCutoff_def)
  from aggregate sorted ties strict after kept order show ?thesis
    by blast
qed

text \<open>
  The order is not strictly descending in general: two versions published at the same
  instant are both returned, one after the other.
\<close>

theorem latest_ties_counterexample:
  "Latest (testEnv\<lparr>registry := twinRegistry\<rparr>) (watchFeed [''BazPackage'']) [''BazPackage''] 0 =
     Returns ([\<lparr>Name = ''BazPackage'', feeds_Version = ''1.0'', feeds_CreatedDate = 1620742712,
                  Type = ''npm''\<rparr>,
               \<lparr>Name = ''BazPackage'', feeds_Version = ''1.1'', feeds_CreatedDate = 1620742712,
                  Type = ''npm''\<rparr>], [])"
  by (simp add: Latest_def watchFeed_def fetchCriticalPackages_def criticalTask_def
      fetchPackage_def twinRegistry_def testEnv_def testParse_def delete_def SliceStable_def
      ApplyCutoff_def NewPackage_def FeedName_def)

theorem latest_sorted_after_cutoff_witness:
  "Latest testEnv (watchFeed [''FooPackage'', ''BarPackage'']) [''BarPackage'', ''FooPackage'']
      1616420716 =
     Returns ([\<lparr>Name = ''FooPackage'', feeds_Version = ''1.0.1'', feeds_CreatedDate = 1620757921,
                  Type = ''npm''\<rparr>,
               \<lparr>Name = ''BarPackage'', feeds_Version = ''0.5.0-alpha'',
                  feeds_CreatedDate = 1620753782, Type = ''npm''\<rparr>,
               \<lparr>Name = ''FooPackage'', feeds_Version = ''0.9.1'', feeds_CreatedDate = 1616476663,
                  Type = ''npm''\<rparr>], []) \<and>
   (\<exists>pkgs. fetchCriticalPackages testEnv [''FooPackage'', ''BarPackage'']
              [''BarPackage'', ''FooPackage''] = Returns (pkgs, []) \<and>
      sorted_wrt (\<lambda>a b. feeds_CreatedDate b \<le> feeds_CreatedDate a)
        [\<lparr>Name = ''FooPackage'', feeds_Version = ''1.0.1'', feeds_CreatedDate = 1620757921,
            Type = ''npm''\<rparr>,
         \<lparr>Name = ''BarPackage'', feeds_Version = ''0.5.0-alpha'',
            feeds_CreatedDate = 1620753782, Type = ''npm''\<rparr>,
         \<lparr>Name = ''FooPackage'', feeds_Version = ''0.9.1'', feeds_CreatedDate = 1616476663,
            Type = ''npm''\<rparr>] \<and>
      length pkgs = 5)"
proof -
  let ?out = "[\<lparr>Name = ''FooPackage'', feeds_Version = ''1.0.1'', feeds_CreatedDate = 1620757921,
            Type = ''npm''\<rparr>,
         \<lparr>Name = ''BarPackage'', feeds_Version = ''0.5.0-alpha'',
            feeds_CreatedDate = 1620753782, Type = ''npm''\<rparr>,
         \<lparr>Name = ''FooPackage'', feeds_Version = ''0.9.1'', feeds_CreatedDate = 1616476663,
            Type = ''npm''\<rparr>]"
  have ne: "?out \<noteq> []" by simp
  from latest_sorted_after_cutoff [OF Latest_watch_test ne]
  obtain pkgs where "fetchCriticalPackages testEnv [''FooPackage'', ''BarPackage'']
              [''BarPackage'', ''FooPackage''] = Returns (pkgs, [])"
    and "sorted_wrt (\<lambda>a b. feeds_CreatedDate b \<le> feeds_CreatedDate a) ?out"
    by (auto simp: watchFeed_def)
  moreover from this(1) have "length pkgs = 5"
    by (auto simp: aggregation_defs)
  ultimately show ?thesis
    using Latest_watch_test by blast
qed

text \<open>
  C6. Whenever the aggregation returns no release, with the errors \<open>errs\<close>, \<open>Latest\<close>
  returns no release and \<open>errs\<close> followed by \<^verbatim>\<open>ErrNoPackagesPolled\<close>: the accumulated errors
  are kept and the new one is the last. In particular this is so when the resolution of
  every package fails, in watch-list mode (one accumulated error for each name of the
  list) and in discovery mode, and when the feed itself cannot be fetched (the one
  error of the feed, then \<^verbatim>\<open>ErrNoPackagesPolled\<close>).
\<close>

theorem no_packages_polled:
  "((case packages feed of None \<Rightarrow> fetchAllPackages w arrival
     | Some pkgList \<Rightarrow> fetchCriticalPackages w pkgList arrival) = Returns ([], errs) \<longrightarrow>
      Latest w feed arrival cutoff = Returns ([], errs @ [ErrNoPackagesPolled]) \<and>
      last (errs @ [ErrNoPackagesPolled]) = ErrNoPackagesPolled \<and>
      butlast (errs @ [ErrNoPackagesPolled]) = errs) \<and>
   (packages feed = Some pkgList \<and> mset arrival = mset pkgList \<and>
    (\<forall>t\<in>set pkgList. \<exists>e. fetchPackage w t = Returns (Inl e)) \<longrightarrow>
      (\<exists>errs. length errs = length pkgList \<and>
         Latest w feed arrival cutoff = Returns ([], errs @ [ErrNoPackagesPolled]))) \<and>
   (packages feed = None \<and> rss w = RssDocument evs \<and> distinct arrival \<and>
    set arrival = set (map event_Title evs) \<and>
    (\<forall>t\<in>set (map event_Title evs). \<exists>e. fetchPackage w t = Returns (Inl e)) \<longrightarrow>
      (\<exists>errs. Latest w feed arrival cutoff = Returns ([], errs @ [ErrNoPackagesPolled]))) \<and>
   (packages feed = None \<and> (\<forall>evs. rss w \<noteq> RssDocument evs) \<longrightarrow>
      (\<exists>e. Latest w feed arrival cutoff = Returns ([], [e] @ [ErrNoPackagesPolled])))"
proof (intro conjI impI)
  assume "(case packages feed of None \<Rightarrow> fetchAllPackages w arrival
     | Some pkgList \<Rightarrow> fetchCriticalPackages w pkgList arrival) = Returns ([], errs)"
  then show "Latest w feed arrival cutoff = Returns ([], errs @ [ErrNoPackagesPolled])"
    by (rule Latest_empty)
next
  show "last (errs @ [ErrNoPackagesPolled]) = ErrNoPackagesPolled" by simp
next
  show "butlast (errs @ [ErrNoPackagesPolled]) = errs" by simp
next
  assume hyps: "packages feed = Some pkgList \<and> mset arrival = mset pkgList \<and>
    (\<forall>t\<in>set pkgList. \<exists>e. fetchPackage w t = Returns (Inl e))"
  then have perm: "mset arrival = mset pkgList" by simp
  then have same: "set arrival = set pkgList" by (rule mset_eq_setD)
  with hyps have failed: "\<forall>t\<in>set arrival. \<exists>e. fetchPackage w t = Returns (Inl e)" by simp
  then have "\<forall>t\<in>set arrival. \<forall>p. fetchPackage w t \<noteq> Panics p" by auto
  from criticalLoop_Returns [OF this, of "[]" "[]"]
  have "fetchCriticalPackages w pkgList arrival =
      Returns (concat (map (\<lambda>t. map release (resolved w t)) arrival),
               concat (map (failure w) arrival))"
    by (simp add: fetchCriticalPackages_arrival [OF perm])
  moreover from failed have "concat (map (\<lambda>t. map release (resolved w t)) arrival) = []"
    by (intro concat_map_Nil) (auto simp: resolved_failed)
  moreover from failed have "length (concat (map (failure w) arrival)) = length arrival"
    by (intro length_concat_singletons) (auto simp: failure_failed)
  moreover from perm have "length arrival = length pkgList" by (rule mset_eq_length)
  ultimately have "fetchCriticalPackages w pkgList arrival =
      Returns ([], concat (map (failure w) arrival))"
    and "length (concat (map (failure w) arrival)) = length pkgList"
    by simp_all
  with hyps show "\<exists>errs. length errs = length pkgList \<and>
         Latest w feed arrival cutoff = Returns ([], errs @ [ErrNoPackagesPolled])"
    by (intro exI [of _ "concat (map (failure w) arrival)"] conjI Latest_empty) simp_all
next
  let ?titles = "map event_Title evs"
  assume hyps: "packages feed = None \<and> rss w = RssDocument evs \<and> distinct arrival \<and>
    set arrival = set ?titles \<and> (\<forall>t\<in>set ?titles. \<exists>e. fetchPackage w t = Returns (Inl e))"
  then have failed: "\<forall>t\<in>set arrival. \<exists>e. fetchPackage w t = Returns (Inl e)" by simp
  then have "\<forall>t\<in>set arrival. fits w (lookup0 (uniquePackages evs)) t"
    by (auto simp: fits_def)
  from discoveryLoop_Returns [OF this, of "[]" "[]"] hyps
  obtain errs where "fetchAllPackages w arrival =
      Returns (concat (map (\<lambda>t. map release (take (lookup0 (uniquePackages evs) t) (resolved w t)))
                 arrival), errs)"
    by (simp add: fetchAllPackages_Document)
  moreover from failed
  have "concat (map (\<lambda>t. map release (take (lookup0 (uniquePackages evs) t) (resolved w t)))
                 arrival) = []"
    by (intro concat_map_Nil) (auto simp: resolved_failed)
  ultimately have "fetchAllPackages w arrival = Returns ([], errs)" by simp
  with hyps show "\<exists>errs. Latest w feed arrival cutoff = Returns ([], errs @ [ErrNoPackagesPolled])"
    by (intro exI [of _ errs] Latest_empty) simp
next
  assume hyps: "packages feed = None \<and> (\<forall>evs. rss w \<noteq> RssDocument evs)"
  then obtain e where "fetchAllPackages w arrival = Returns ([], [e])"
    using fetchAllPackages_no_feed [of w arrival] by blast
  with hyps show "\<exists>e. Latest w feed arrival cutoff = Returns ([], [e] @ [ErrNoPackagesPolled])"
    by (intro exI [of _ e] Latest_empty) simp
qed

theorem no_packages_polled_witness:
  "fetchCriticalPackages testEnv [''QuxPackage'', ''QuuxPackage''] [''QuuxPackage'', ''QuxPackage'']
     = Returns ([], [PackagePollError ''QuuxPackage''
                       (Errorf ''failed to fetch npm package version data: ''
                          (Foreign ''404 Not Found'') []),
                     Errorf ''QuxPackage '' ErrUnpublished []]) \<and>
   Latest testEnv (watchFeed [''QuxPackage'', ''QuuxPackage'']) [''QuuxPackage'', ''QuxPackage''] 0
     = Returns ([], [PackagePollError ''QuuxPackage''
                       (Errorf ''failed to fetch npm package version data: ''
                          (Foreign ''404 Not Found'') []),
                     Errorf ''QuxPackage '' ErrUnpublished []] @ [ErrNoPackagesPolled]) \<and>
   mset [''QuuxPackage'', ''QuxPackage''] = mset [''QuxPackage'', ''QuuxPackage''] \<and>
   (\<exists>e. fetchPackage testEnv ''QuxPackage'' = Returns (Inl e)) \<and>
   (\<exists>e. fetchPackage testEnv ''QuuxPackage'' = Returns (Inl e)) \<and>
   (\<exists>errs. length errs = length [''QuxPackage'', ''QuuxPackage''] \<and>
      Latest testEnv (watchFeed [''QuxPackage'', ''QuuxPackage'']) [''QuuxPackage'', ''QuxPackage''] 0
        = Returns ([], errs @ [ErrNoPackagesPolled])) \<and>
   rss (testEnv\<lparr>rss := RssDocument [PackageEvent ''QuxPackage'']\<rparr>)
     = RssDocument [PackageEvent ''QuxPackage''] \<and>
   (\<exists>errs. Latest (testEnv\<lparr>rss := RssDocument [PackageEvent ''QuxPackage'']\<rparr>) discoveryFeed
              [''QuxPackage''] 0 = Returns ([], errs @ [ErrNoPackagesPolled])) \<and>
   rss (testEnv\<lparr>rss := RssBadStatus notFound\<rparr>) = RssBadStatus notFound \<and>
   (\<exists>e. Latest (testEnv\<lparr>rss := RssBadStatus notFound\<rparr>) discoveryFeed [] 0
           = Returns ([], [e] @ [ErrNoPackagesPolled]))"
proof -
  let ?list = "[''QuxPackage'', ''QuuxPackage'']"
  let ?arrival = "[''QuuxPackage'', ''QuxPackage'']"
  let ?errs = "[PackagePollError ''QuuxPackage''
                       (Errorf ''failed to fetch npm package version data: ''
                          (Foreign ''404 Not Found'') []),
                     Errorf ''QuxPackage '' ErrUnpublished []]"
  let ?one = "testEnv\<lparr>rss := RssDocument [PackageEvent ''QuxPackage'']\<rparr>"
  let ?none = "testEnv\<lparr>rss := RssBadStatus notFound\<rparr>"
  have watch: "packages (watchFeed ?list) = Some ?list" by (simp add: watchFeed_def)
  have discovery: "packages discoveryFeed = None" by (simp add: discoveryFeed_def)
  have a: "fetchCriticalPackages testEnv ?list ?arrival = Returns ([], ?errs)"
    by (simp add: aggregation_defs)
  have perm: "mset ?arrival = mset ?list" by simp
  have failed: "\<forall>t\<in>set ?list. \<exists>e. fetchPackage testEnv t = Returns (Inl e)"
    by (simp add: fetchPackage_Qux fetchPackage_other)
  have c1: "rss ?one = RssDocument [PackageEvent ''QuxPackage'']" by simp
  have c2: "distinct [''QuxPackage''] \<and> set [''QuxPackage''] = set (map event_Title [PackageEvent ''QuxPackage''])"
    by simp
  have c3: "\<forall>t\<in>set (map event_Title [PackageEvent ''QuxPackage'']). \<exists>e. fetchPackage ?one t = Returns (Inl e)"
    by (simp add: fetchPackage_rss_update fetchPackage_Qux)
  have d: "\<forall>evs. rss ?none \<noteq> RssDocument evs" by simp
  from no_packages_polled [where feed = "watchFeed ?list" and w = testEnv and arrival = ?arrival
      and errs = ?errs and cutoff = 0] watch a
  have "Latest testEnv (watchFeed ?list) ?arrival 0 = Returns ([], ?errs @ [ErrNoPackagesPolled])"
    by simp
  moreover from no_packages_polled [where feed = "watchFeed ?list" and w = testEnv
      and arrival = ?arrival and cutoff = 0 and pkgList = ?list] watch perm failed
  have "\<exists>errs. length errs = length ?list \<and>
      Latest testEnv (watchFeed ?list) ?arrival 0 = Returns ([], errs @ [ErrNoPackagesPolled])"
    by blast
  moreover from no_packages_polled [where feed = discoveryFeed and w = ?one
      and arrival = "[''QuxPackage'']" and cutoff = 0 and evs = "[PackageEvent ''QuxPackage'']"]
      discovery c1 c2 c3
  have "\<exists>errs. Latest ?one discoveryFeed [''QuxPackage''] 0 = Returns ([], errs @ [ErrNoPackagesPolled])"
    by blast
  moreover from no_packages_polled [where feed = discoveryFeed and w = ?none and arrival = "[]"
      and cutoff = 0] discovery d
  have "\<exists>e. Latest ?none discoveryFeed [] 0 = Returns ([], [e] @ [ErrNoPackagesPolled])"
    by blast
  moreover have "\<exists>e. fetchPackage testEnv ''QuxPackage'' = Returns (Inl e)"
    and "\<exists>e. fetchPackage testEnv ''QuuxPackage'' = Returns (Inl e)"
    and "rss ?none = RssBadStatus notFound"
    by (simp_all add: fetchPackage_Qux fetchPackage_other)
  ultimately show ?thesis
    using a perm c1 by (intro conjI)
qed

lemma discovery_errors:
  assumes "x \<in> set (concat (map (\<lambda>t. filter (\<lambda>e. \<not> errors_Is e ErrUnpublished) (failure w t)) ts))"
  shows "\<exists>t c. t \<in> set ts \<and> x = PackagePollError t c \<and> fetchPackage w t = Returns (Inl c) \<and>
           \<not> errors_Is c ErrUnpublished"
proof -
  from assms obtain t where t: "t \<in> set ts" and x: "x \<in> set (failure w t)"
    and kept: "\<not> errors_Is x ErrUnpublished"
    by auto
  show ?thesis
  proof (cases "fetchPackage w t")
    case (Returns r)
    show ?thesis
    proof (cases r)
      case (Inl c)
      with Returns x have x_def: "x = (if \<not> errors_Is c ErrUnpublished then PackagePollError t c else c)"
        by (simp add: failure_def)
      with kept have "\<not> errors_Is c ErrUnpublished"
        by (cases "errors_Is c ErrUnpublished") simp_all
      with x_def t Returns Inl show ?thesis
        by auto
    next
      case (Inr vs)
      with Returns x show ?thesis by (simp add: failure_def)
    qed
  next
    case (Panics p)
    with x show ?thesis by (simp add: failure_def)
  qed
qed

lemma Latest_withdrawn_and_missing:
  "Latest (testEnv\<lparr>rss := RssDocument withdrawnAndMissing\<rparr>) discoveryFeed
       [''QuuxPackage'', ''QuxPackage'', ''FooPackage''] 0 =
     Returns ([\<lparr>Name = ''FooPackage'', feeds_Version = ''1.0.1'', feeds_CreatedDate = 1620757921,
                  Type = ''npm''\<rparr>],
              [PackagePollError ''QuuxPackage''
                 (Errorf ''failed to fetch npm package version data: ''
                    (Foreign ''404 Not Found'') [])])"
  by (simp add: Latest_def discoveryFeed_def fetchAllPackages_def fetchPackageEvents_def
      withdrawnAndMissing_def uniquePackages_def lookup0_def discoveryTask_def slicePrefix_def
      spare_testEnv fetchPackage_rss_update fetchPackage_Foo fetchPackage_Qux fetchPackage_other
      NewPackage_def FeedName_def SliceStable_def ApplyCutoff_def)

section \<open>Failures of single packages\<close>

text \<open>
  C3. Let the resolution of package \<open>P\<close> return the unpublish error \<open>e\<close>, and let \<open>Latest\<close>
  return. In discovery mode no returned release bears the name \<open>P\<close>; no returned error
  is an unpublish error, \<open>e\<close> is not among the returned errors, and neither is a
  \<^verbatim>\<open>PackagePollError\<close> for \<open>P\<close>: every returned error is \<^verbatim>\<open>ErrNoPackagesPolled\<close> or the
  \<^verbatim>\<open>PackagePollError\<close> of another package, with the error of that package's own
  resolution, which is not an unpublish error. In watch-list mode no returned release bears the name \<open>P\<close>;
  the returned errors hold \<open>e\<close>, whose message contains the name \<open>P\<close>, once for each
  occurrence of \<open>P\<close> in the watch list, hence exactly once when \<open>P\<close> is listed once; and
  no \<^verbatim>\<open>PackagePollError\<close> for \<open>P\<close> is among them.
\<close>

theorem unpublished_package:
  assumes "fetchPackage w P = Returns (Inl e)" and "errors_Is e ErrUnpublished"
    and "Latest w feed arrival cutoff = Returns (out, errs)"
  shows "(packages feed = None \<and> rss w = RssDocument evs \<and> distinct arrival \<and>
          set arrival = set (map event_Title evs) \<longrightarrow>
            (\<forall>x\<in>set out. Name x \<noteq> P) \<and> (\<forall>x\<in>set errs. \<not> errors_Is x ErrUnpublished) \<and>
            e \<notin> set errs \<and>
            (\<forall>x\<in>set errs. \<forall>c. x \<noteq> PackagePollError P c) \<and>
            (\<forall>x\<in>set errs. x = ErrNoPackagesPolled \<or>
               (\<exists>t c. t \<in> set arrival \<and> t \<noteq> P \<and> x = PackagePollError t c \<and>
                  fetchPackage w t = Returns (Inl c) \<and> \<not> errors_Is c ErrUnpublished))) \<and>
         (packages feed = Some pkgList \<and> mset arrival = mset pkgList \<longrightarrow>
            (\<forall>x\<in>set out. Name x \<noteq> P) \<and>
            count_list errs e = count_list pkgList P \<and>
            strings_Contains (Error e) P \<and>
            (\<forall>x\<in>set errs. \<forall>c. x \<noteq> PackagePollError P c))"
    (is "(?discovery \<longrightarrow> ?discovered) \<and> (?watch_list \<longrightarrow> ?watched)")
proof -
  have discovered: ?discovered if hyps: ?discovery
  proof -
    let ?titles = "map event_Title evs"
    from assms(3) obtain pkgs errs0
      where aggregate: "fetchAllPackages w arrival = Returns (pkgs, errs0)"
        and out: "out = ApplyCutoff (SliceStable (\<lambda>a b. feeds_CreatedDate b < feeds_CreatedDate a) pkgs) cutoff"
        and errs: "errs = (if pkgs = [] then errs0 @ [ErrNoPackagesPolled] else errs0)"
      by (rule Latest_Returns) (use hyps in simp)
    from hyps aggregate
    have pkgs: "pkgs = concat (map (\<lambda>t. map release (take (count_list ?titles t) (resolved w t))) arrival)"
      and errs0: "errs0 = concat (map (\<lambda>t. filter (\<lambda>e. \<not> errors_Is e ErrUnpublished) (failure w t)) arrival)"
      by (auto intro: fetchAllPackages_Returns)
    have "Name x \<noteq> P" if "x \<in> set pkgs" for x
      using names_discovery [OF that [unfolded pkgs]] resolved_failed [OF assms(1)] by auto
    with set_ApplyCutoff_SliceStable [of pkgs cutoff] have names: "\<forall>x\<in>set out. Name x \<noteq> P"
      unfolding out by blast
    have "\<forall>x\<in>set errs0. \<not> errors_Is x ErrUnpublished"
      unfolding errs0 by auto
    then have suppressed: "\<forall>x\<in>set errs. \<not> errors_Is x ErrUnpublished"
      by (auto simp: errs)
    with assms(2) have absent: "e \<notin> set errs"
      by blast
    have others: "\<exists>t c. t \<in> set arrival \<and> t \<noteq> P \<and> x = PackagePollError t c \<and>
        fetchPackage w t = Returns (Inl c) \<and> \<not> errors_Is c ErrUnpublished"
      if "x \<in> set errs0" for x
    proof -
      from discovery_errors [OF that [unfolded errs0]] obtain t c
        where found: "t \<in> set arrival" "x = PackagePollError t c"
          "fetchPackage w t = Returns (Inl c)" "\<not> errors_Is c ErrUnpublished"
        by blast
      with assms(1,2) have "t \<noteq> P" by auto
      with found show ?thesis by blast
    qed
    have origin: "\<forall>x\<in>set errs. x = ErrNoPackagesPolled \<or>
        (\<exists>t c. t \<in> set arrival \<and> t \<noteq> P \<and> x = PackagePollError t c \<and>
           fetchPackage w t = Returns (Inl c) \<and> \<not> errors_Is c ErrUnpublished)"
    proof
      fix x assume "x \<in> set errs"
      then have "x = ErrNoPackagesPolled \<or> x \<in> set errs0"
        by (auto simp: errs split: if_splits)
      with others show "x = ErrNoPackagesPolled \<or>
        (\<exists>t c. t \<in> set arrival \<and> t \<noteq> P \<and> x = PackagePollError t c \<and>
           fetchPackage w t = Returns (Inl c) \<and> \<not> errors_Is c ErrUnpublished)"
        by blast
    qed
    then have unwrapped: "\<forall>x\<in>set errs. \<forall>c. x \<noteq> PackagePollError P c"
      by fastforce
    from names suppressed absent unwrapped origin show ?thesis
      by (intro conjI)
  qed
  have watched: ?watched if hyps: ?watch_list
  proof -
    from assms(3) obtain pkgs errs0
      where aggregate: "fetchCriticalPackages w pkgList arrival = Returns (pkgs, errs0)"
        and out: "out = ApplyCutoff (SliceStable (\<lambda>a b. feeds_CreatedDate b < feeds_CreatedDate a) pkgs) cutoff"
        and errs: "errs = (if pkgs = [] then errs0 @ [ErrNoPackagesPolled] else errs0)"
      by (rule Latest_Returns) (use hyps in simp)
    from hyps aggregate
    have pkgs: "pkgs = concat (map (\<lambda>t. map release (resolved w t)) arrival)"
      and errs0: "errs0 = concat (map (failure w) arrival)"
      by (auto intro: fetchCriticalPackages_Returns)
    have e: "e = Errorf (P @ '' '') ErrUnpublished []"
      by (rule fetchPackage_Inl_unpublished [OF assms(1,2)])
    have "Name x \<noteq> P" if "x \<in> set pkgs" for x
      using names_critical [OF that [unfolded pkgs]] resolved_failed [OF assms(1)] by auto
    with set_ApplyCutoff_SliceStable [of pkgs cutoff] have names: "\<forall>x\<in>set out. Name x \<noteq> P"
      unfolding out by blast
    from assms(1,2) have "failure w P = [e]"
      by (simp add: failure_failed)
    from count_unpublished [OF this e, of arrival]
    have "count_list errs0 e = count_list arrival P"
      by (simp add: errs0)
    also from hyps have "\<dots> = count_list pkgList P"
      by (metis count_mset)
    finally have counted: "count_list errs e = count_list pkgList P"
      by (simp add: errs e)
    have message: "strings_Contains (Error e) P"
      by (simp add: e strings_Contains_def)
    from failure_not_unpublished_of [OF assms(1,2), of _ arrival]
    have unwrapped: "\<forall>x\<in>set errs. \<forall>c. x \<noteq> PackagePollError P c"
      by (auto simp: errs errs0)
    from names counted message unwrapped show ?thesis
      by (intro conjI)
  qed
  have "?discovery \<longrightarrow> ?discovered"
    by (rule impI) (rule discovered)
  moreover have "?watch_list \<longrightarrow> ?watched"
    by (rule impI) (rule watched)
  ultimately show ?thesis
    by (rule conjI)
qed

text \<open>
  A package that the watch list names twice is resolved twice, and its unpublish error
  is recorded twice.
\<close>

theorem unpublished_twice_counterexample:
  "fetchPackage testEnv ''QuxPackage'' = Returns (Inl (Errorf ''QuxPackage '' ErrUnpublished [])) \<and>
   fetchCriticalPackages testEnv [''QuxPackage'', ''FooPackage'', ''QuxPackage'']
       [''FooPackage'', ''QuxPackage'', ''QuxPackage''] =
     Returns ([\<lparr>Name = ''FooPackage'', feeds_Version = ''1.0.1'', feeds_CreatedDate = 1620757921,
                  Type = ''npm''\<rparr>,
               \<lparr>Name = ''FooPackage'', feeds_Version = ''0.9.1'', feeds_CreatedDate = 1616476663,
                  Type = ''npm''\<rparr>,
               \<lparr>Name = ''FooPackage'', feeds_Version = ''1.0.0'', feeds_CreatedDate = 1616418449,
                  Type = ''npm''\<rparr>],
              [Errorf ''QuxPackage '' ErrUnpublished [], Errorf ''QuxPackage '' ErrUnpublished []]) \<and>
   Latest testEnv (watchFeed [''QuxPackage'', ''FooPackage'', ''QuxPackage''])
       [''FooPackage'', ''QuxPackage'', ''QuxPackage''] 1620000000 =
     Returns ([\<lparr>Name = ''FooPackage'', feeds_Version = ''1.0.1'', feeds_CreatedDate = 1620757921,
                  Type = ''npm''\<rparr>],
              [Errorf ''QuxPackage '' ErrUnpublished [], Errorf ''QuxPackage '' ErrUnpublished []])"
  by (simp add: Latest_def watchFeed_def aggregation_defs SliceStable_def ApplyCutoff_def)

theorem unpublished_package_witness:
  "fetchPackage testEnv ''QuxPackage'' = Returns (Inl (Errorf ''QuxPackage '' ErrUnpublished [])) \<and>
   errors_Is (Errorf ''QuxPackage '' ErrUnpublished []) ErrUnpublished \<and>
   Latest testEnv discoveryFeed [''QuxPackage'', ''BazPackage'', ''BarPackage'', ''FooPackage''] 0 =
     Returns ([\<lparr>Name = ''FooPackage'', feeds_Version = ''1.0.1'', feeds_CreatedDate = 1620757921,
                  Type = ''npm''\<rparr>,
               \<lparr>Name = ''BarPackage'', feeds_Version = ''0.5.0-alpha'',
                  feeds_CreatedDate = 1620753782, Type = ''npm''\<rparr>,
               \<lparr>Name = ''BazPackage'', feeds_Version = ''1.1'', feeds_CreatedDate = 1620742785,
                  Type = ''npm''\<rparr>,
               \<lparr>Name = ''BazPackage'', feeds_Version = ''1.0'', feeds_CreatedDate = 1620742712,
                  Type = ''npm''\<rparr>], []) \<and>
   ''QuxPackage'' \<in> set (map event_Title npmLatestPackagesResponse) \<and>
   Latest testEnv (watchFeed [''FooPackage'', ''QuxPackage'']) [''QuxPackage'', ''FooPackage'']
       1620000000 =
     Returns ([\<lparr>Name = ''FooPackage'', feeds_Version = ''1.0.1'', feeds_CreatedDate = 1620757921,
                  Type = ''npm''\<rparr>],
              [Errorf ''QuxPackage '' ErrUnpublished []]) \<and>
   mset [''QuxPackage'', ''FooPackage''] = mset [''FooPackage'', ''QuxPackage''] \<and>
   count_list [Errorf ''QuxPackage '' ErrUnpublished []] (Errorf ''QuxPackage '' ErrUnpublished [])
     = count_list [''FooPackage'', ''QuxPackage''] ''QuxPackage'' \<and>
   strings_Contains (Error (Errorf ''QuxPackage '' ErrUnpublished [])) ''QuxPackage'' \<and>
   list_all (\<lambda>x. Name x \<noteq> ''QuxPackage'')
     [\<lparr>Name = ''FooPackage'', feeds_Version = ''1.0.1'', feeds_CreatedDate = 1620757921,
         Type = ''npm''\<rparr>,
      \<lparr>Name = ''BarPackage'', feeds_Version = ''0.5.0-alpha'',
         feeds_CreatedDate = 1620753782, Type = ''npm''\<rparr>,
      \<lparr>Name = ''BazPackage'', feeds_Version = ''1.1'', feeds_CreatedDate = 1620742785,
         Type = ''npm''\<rparr>,
      \<lparr>Name = ''BazPackage'', feeds_Version = ''1.0'', feeds_CreatedDate = 1620742712,
         Type = ''npm''\<rparr>] \<and>
   Latest (testEnv\<lparr>rss := RssDocument withdrawnAndMissing\<rparr>) discoveryFeed
       [''QuuxPackage'', ''QuxPackage'', ''FooPackage''] 0 =
     Returns ([\<lparr>Name = ''FooPackage'', feeds_Version = ''1.0.1'', feeds_CreatedDate = 1620757921,
                  Type = ''npm''\<rparr>],
              [PackagePollError ''QuuxPackage''
                 (Errorf ''failed to fetch npm package version data: ''
                    (Foreign ''404 Not Found'') [])]) \<and>
   Errorf ''QuxPackage '' ErrUnpublished [] \<notin>
     set [PackagePollError ''QuuxPackage''
            (Errorf ''failed to fetch npm package version data: ''
               (Foreign ''404 Not Found'') [])] \<and>
   list_all (\<lambda>x. \<forall>c. x \<noteq> PackagePollError ''QuxPackage'' c)
     [PackagePollError ''QuuxPackage''
        (Errorf ''failed to fetch npm package version data: ''
           (Foreign ''404 Not Found'') [])]"
proof -
  let ?both = "testEnv\<lparr>rss := RssDocument withdrawnAndMissing\<rparr>"
  let ?missing = "[PackagePollError ''QuuxPackage''
        (Errorf ''failed to fetch npm package version data: ''
           (Foreign ''404 Not Found'') [])]"
  let ?e = "Errorf ''QuxPackage '' ErrUnpublished []"
  let ?out = "[\<lparr>Name = ''FooPackage'', feeds_Version = ''1.0.1'', feeds_CreatedDate = 1620757921,
         Type = ''npm''\<rparr>,
      \<lparr>Name = ''BarPackage'', feeds_Version = ''0.5.0-alpha'',
         feeds_CreatedDate = 1620753782, Type = ''npm''\<rparr>,
      \<lparr>Name = ''BazPackage'', feeds_Version = ''1.1'', feeds_CreatedDate = 1620742785,
         Type = ''npm''\<rparr>,
      \<lparr>Name = ''BazPackage'', feeds_Version = ''1.0'', feeds_CreatedDate = 1620742712,
         Type = ''npm''\<rparr>]"
  let ?arrival = "[''QuxPackage'', ''BazPackage'', ''BarPackage'', ''FooPackage'']"
  have is_unpublished: "errors_Is ?e ErrUnpublished" by simp
  have discovery: "packages discoveryFeed = None \<and>
      rss testEnv = RssDocument npmLatestPackagesResponse \<and> distinct ?arrival \<and>
      set ?arrival = set (map event_Title npmLatestPackagesResponse)"
    by (auto simp: discoveryFeed_def rss_testEnv npmLatestPackagesResponse_def)
  have mentioned: "''QuxPackage'' \<in> set (map event_Title npmLatestPackagesResponse)"
    by (simp add: npmLatestPackagesResponse_def)
  have watch: "packages (watchFeed [''FooPackage'', ''QuxPackage'']) = Some [''FooPackage'', ''QuxPackage''] \<and>
      mset [''QuxPackage'', ''FooPackage''] = mset [''FooPackage'', ''QuxPackage'']"
    by (simp add: watchFeed_def)
  from unpublished_package [OF fetchPackage_Qux is_unpublished Latest_discovery_test,
      where evs = npmLatestPackagesResponse] discovery
  have "\<forall>x\<in>set ?out. Name x \<noteq> ''QuxPackage''"
    by blast
  then have none: "list_all (\<lambda>x. Name x \<noteq> ''QuxPackage'') ?out"
    by (simp only: list_all_iff)
  from unpublished_package [OF fetchPackage_Qux is_unpublished Latest_unpublished_watch,
      where pkgList = "[''FooPackage'', ''QuxPackage'']"] watch
  have "count_list [?e] ?e = count_list [''FooPackage'', ''QuxPackage''] ''QuxPackage'' \<and>
      strings_Contains (Error ?e) ''QuxPackage''"
    by blast
  moreover have withdrawn: "fetchPackage ?both ''QuxPackage'' = Returns (Inl ?e)"
    by (simp add: fetchPackage_rss_update fetchPackage_Qux)
  have both: "packages discoveryFeed = None \<and> rss ?both = RssDocument withdrawnAndMissing \<and>
      distinct [''QuuxPackage'', ''QuxPackage'', ''FooPackage''] \<and>
      set [''QuuxPackage'', ''QuxPackage'', ''FooPackage''] = set (map event_Title withdrawnAndMissing)"
    by (auto simp: discoveryFeed_def withdrawnAndMissing_def)
  note kept_out = mp [OF conjunct1 [OF unpublished_package [OF withdrawn is_unpublished
      Latest_withdrawn_and_missing, where evs = withdrawnAndMissing]] both]
  from kept_out have absent: "?e \<notin> set ?missing"
    by (elim conjE)
  from kept_out have "\<forall>x\<in>set ?missing. \<forall>c. x \<noteq> PackagePollError ''QuxPackage'' c"
    by (elim conjE)
  then have unwrapped: "list_all (\<lambda>x. \<forall>c. x \<noteq> PackagePollError ''QuxPackage'' c) ?missing"
    by (simp only: list_all_iff)
  ultimately show ?thesis
    using fetchPackage_Qux is_unpublished Latest_discovery_test Latest_unpublished_watch mentioned
      watch none Latest_withdrawn_and_missing absent unwrapped
    by (intro conjI) simp_all
qed

text \<open>
  C4. Let the resolution of package \<open>F\<close> fail with an error \<open>cause\<close> that is not the
  unpublish error (a transport failure such as a not-found status is one), \<open>F\<close> being
  one of the packages polled and named once, and let the resolution of every other
  package \<open>t\<close> succeed with the versions \<open>vs t\<close> (in discovery mode, at least as many as
  the feed mentions \<open>t\<close>). Then in either mode \<open>Latest\<close> returns: the releases of all
  the other packages (in discovery mode the newest of each, as many as it is
  mentioned), sorted and filtered by the cutoff, and the single error
  \<^verbatim>\<open>PackagePollError\<close> of \<open>F\<close> and \<open>cause\<close>, followed by \<^verbatim>\<open>ErrNoPackagesPolled\<close> only when there
  is no release at all. The message of that error contains the name \<open>F\<close> and the
  message of \<open>cause\<close>.
\<close>

theorem one_failure_isolated:
  assumes "fetchPackage w F = Returns (Inl cause)" and "\<not> errors_Is cause ErrUnpublished"
  shows "(packages feed = Some pkgList \<and> mset arrival = mset pkgList \<and> count_list pkgList F = 1 \<and>
          (\<forall>t\<in>set pkgList. t \<noteq> F \<longrightarrow> fetchPackage w t = Returns (Inr (vs t))) \<longrightarrow>
            fetchCriticalPackages w pkgList arrival =
              Returns (concat (map (\<lambda>t. map release (vs t)) (filter (\<lambda>t. t \<noteq> F) arrival)),
                       [PackagePollError F cause]) \<and>
            (\<exists>errs. Latest w feed arrival cutoff =
                Returns (ApplyCutoff
                           (SliceStable (\<lambda>a b. feeds_CreatedDate b < feeds_CreatedDate a)
                              (concat (map (\<lambda>t. map release (vs t))
                                         (filter (\<lambda>t. t \<noteq> F) arrival))))
                           cutoff, errs) \<and>
               (errs = [PackagePollError F cause] \<or>
                errs = [PackagePollError F cause, ErrNoPackagesPolled]))) \<and>
         (packages feed = None \<and> rss w = RssDocument evs \<and> distinct arrival \<and>
          set arrival = set (map event_Title evs) \<and> F \<in> set (map event_Title evs) \<and>
          (\<forall>t\<in>set (map event_Title evs). t \<noteq> F \<longrightarrow>
              fetchPackage w t = Returns (Inr (vs t)) \<and>
              count_list (map event_Title evs) t \<le> length (vs t)) \<longrightarrow>
            fetchAllPackages w arrival =
              Returns (concat (map (\<lambda>t. map release
                                           (take (count_list (map event_Title evs) t) (vs t)))
                                 (filter (\<lambda>t. t \<noteq> F) arrival)),
                       [PackagePollError F cause]) \<and>
            (\<exists>errs. Latest w feed arrival cutoff =
                Returns (ApplyCutoff
                           (SliceStable (\<lambda>a b. feeds_CreatedDate b < feeds_CreatedDate a)
                              (concat (map (\<lambda>t. map release
                                                   (take (count_list (map event_Title evs) t) (vs t)))
                                         (filter (\<lambda>t. t \<noteq> F) arrival))))
                           cutoff, errs) \<and>
               (errs = [PackagePollError F cause] \<or>
                errs = [PackagePollError F cause, ErrNoPackagesPolled]))) \<and>
         strings_Contains (Error (PackagePollError F cause)) F \<and>
         strings_Contains (Error (PackagePollError F cause)) (Error cause)"
    (is "(?watch_list \<longrightarrow> ?watched) \<and> (?discovery \<longrightarrow> ?discovered) \<and> ?name \<and> ?reason")
proof -
  let ?sort = "SliceStable (\<lambda>a b. feeds_CreatedDate b < feeds_CreatedDate a)"
  have failure: "failure w F = [PackagePollError F cause]"
    using assms by (simp add: failure_failed)
  have none: "resolved w F = []"
    by (rule resolved_failed [OF assms(1)])
  have finish: "\<exists>errs. Latest w feed arrival cutoff = Returns (ApplyCutoff (?sort pkgs) cutoff, errs) \<and>
      (errs = [PackagePollError F cause] \<or> errs = [PackagePollError F cause, ErrNoPackagesPolled])"
    if "(case packages feed of None \<Rightarrow> fetchAllPackages w arrival
         | Some pkgList \<Rightarrow> fetchCriticalPackages w pkgList arrival)
        = Returns (pkgs, [PackagePollError F cause])" for pkgs
    using Latest_unfold [OF that, of cutoff] by auto
  have watched: ?watched if hyps: ?watch_list
  proof -
    from hyps have perm: "mset arrival = mset pkgList" by simp
    then have same: "set arrival = set pkgList" by (rule mset_eq_setD)
    from perm hyps have once: "count_list arrival F = 1" by (metis count_mset)
    from hyps same have others: "\<forall>t\<in>set arrival. t \<noteq> F \<longrightarrow> fetchPackage w t = Returns (Inr (vs t))"
      by simp
    with assms(1) have "\<forall>t\<in>set arrival. \<forall>p. fetchPackage w t \<noteq> Panics p"
      by (metis outcome.distinct(1))
    from criticalLoop_Returns [OF this, of "[]" "[]"]
    have aggregate: "fetchCriticalPackages w pkgList arrival =
        Returns (concat (map (\<lambda>t. map release (resolved w t)) arrival),
                 concat (map (failure w) arrival))"
      by (simp add: fetchCriticalPackages_arrival [OF perm])
    have pkgs: "concat (map (\<lambda>t. map release (resolved w t)) arrival) =
        concat (map (\<lambda>t. map release (vs t)) (filter (\<lambda>t. t \<noteq> F) arrival))"
      using others by (intro concat_map_skip) (auto simp: none resolved_resolved)
    have errs: "concat (map (failure w) arrival) = [PackagePollError F cause]"
      using others concat_map_only [OF once, of "failure w"]
      by (auto simp: failure failure_resolved)
    note collected = aggregate [unfolded pkgs errs]
    from hyps collected
    have "(case packages feed of None \<Rightarrow> fetchAllPackages w arrival
           | Some pkgList \<Rightarrow> fetchCriticalPackages w pkgList arrival)
        = Returns (concat (map (\<lambda>t. map release (vs t)) (filter (\<lambda>t. t \<noteq> F) arrival)),
                   [PackagePollError F cause])"
      by simp
    from collected finish [OF this] show ?thesis
      by (rule conjI)
  qed
  have discovered: ?discovered if hyps: ?discovery
  proof -
    let ?titles = "map event_Title evs"
    let ?n = "count_list ?titles"
    from hyps have once: "count_list arrival F = 1"
      by (intro count_list_distinct) simp_all
    from hyps have others: "\<forall>t\<in>set arrival. t \<noteq> F \<longrightarrow>
        fetchPackage w t = Returns (Inr (vs t)) \<and> ?n t \<le> length (vs t)"
      by simp
    have counts: "lookup0 (uniquePackages evs) = ?n"
      by (rule ext) (rule lookup0_uniquePackages)
    have "\<forall>t\<in>set arrival. fits w ?n t"
    proof
      fix t assume "t \<in> set arrival"
      with others assms(1) show "fits w ?n t"
        by (cases "t = F") (auto simp: fits_def)
    qed
    from discoveryLoop_Returns [OF this [folded counts], of "[]" "[]"] hyps
    have aggregate: "fetchAllPackages w arrival =
        Returns (concat (map (\<lambda>t. map release (take (?n t) (resolved w t))) arrival),
                 concat (map (\<lambda>t. filter (\<lambda>e. \<not> errors_Is e ErrUnpublished) (failure w t)) arrival))"
      by (simp add: fetchAllPackages_Document counts)
    have pkgs: "concat (map (\<lambda>t. map release (take (?n t) (resolved w t))) arrival) =
        concat (map (\<lambda>t. map release (take (?n t) (vs t))) (filter (\<lambda>t. t \<noteq> F) arrival))"
      using others by (intro concat_map_skip) (auto simp: none resolved_resolved)
    have errs: "concat (map (\<lambda>t. filter (\<lambda>e. \<not> errors_Is e ErrUnpublished) (failure w t)) arrival)
        = [PackagePollError F cause]"
      using others
        concat_map_only [OF once, of "\<lambda>t. filter (\<lambda>e. \<not> errors_Is e ErrUnpublished) (failure w t)"]
      by (auto simp: failure failure_resolved)
    note collected = aggregate [unfolded pkgs errs]
    from hyps collected
    have "(case packages feed of None \<Rightarrow> fetchAllPackages w arrival
           | Some pkgList \<Rightarrow> fetchCriticalPackages w pkgList arrival)
        = Returns (concat (map (\<lambda>t. map release (take (?n t) (vs t)))
                             (filter (\<lambda>t. t \<noteq> F) arrival)),
                   [PackagePollError F cause])"
      by simp
    from collected finish [OF this] show ?thesis
      by (rule conjI)
  qed
  have "?watch_list \<longrightarrow> ?watched"
    by (rule impI) (rule watched)
  moreover have "?discovery \<longrightarrow> ?discovered"
    by (rule impI) (rule discovered)
  moreover have ?name and ?reason
    by (rule PackagePollError_message)+
  ultimately show ?thesis
    by (intro conjI)
qed

theorem one_failure_isolated_witness:
  "fetchPackage testEnv ''QuuxPackage'' =
     Returns (Inl (Errorf ''failed to fetch npm package version data: ''
                     (Foreign ''404 Not Found'') [])) \<and>
   \<not> errors_Is (Errorf ''failed to fetch npm package version data: '' (Foreign ''404 Not Found'') [])
        ErrUnpublished \<and>
   mset [''QuuxPackage'', ''FooPackage''] = mset [''FooPackage'', ''QuuxPackage''] \<and>
   count_list [''FooPackage'', ''QuuxPackage''] ''QuuxPackage'' = 1 \<and>
   fetchPackage testEnv ''FooPackage'' = Returns (Inr fooVersions) \<and>
   (\<exists>errs. Latest testEnv (watchFeed [''FooPackage'', ''QuuxPackage''])
              [''QuuxPackage'', ''FooPackage''] 0 =
        Returns (ApplyCutoff
                   (SliceStable (\<lambda>a b. feeds_CreatedDate b < feeds_CreatedDate a)
                      (concat (map (\<lambda>t. map release fooVersions)
                                 (filter (\<lambda>t. t \<noteq> ''QuuxPackage'')
                                    [''QuuxPackage'', ''FooPackage'']))))
                   0, errs) \<and>
      (errs = [PackagePollError ''QuuxPackage''
                 (Errorf ''failed to fetch npm package version data: ''
                    (Foreign ''404 Not Found'') [])] \<or>
       errs = [PackagePollError ''QuuxPackage''
                 (Errorf ''failed to fetch npm package version data: ''
                    (Foreign ''404 Not Found'') []), ErrNoPackagesPolled])) \<and>
   (\<exists>errs. Latest (testEnv\<lparr>rss := RssDocument fooAndMissing\<rparr>) discoveryFeed
              [''QuuxPackage'', ''FooPackage''] 0 =
        Returns (ApplyCutoff
                   (SliceStable (\<lambda>a b. feeds_CreatedDate b < feeds_CreatedDate a)
                      (concat (map (\<lambda>t. map release
                                           (take (count_list (map event_Title fooAndMissing) t)
                                              fooVersions))
                                 (filter (\<lambda>t. t \<noteq> ''QuuxPackage'')
                                    [''QuuxPackage'', ''FooPackage'']))))
                   0, errs) \<and>
      (errs = [PackagePollError ''QuuxPackage''
                 (Errorf ''failed to fetch npm package version data: ''
                    (Foreign ''404 Not Found'') [])] \<or>
       errs = [PackagePollError ''QuuxPackage''
                 (Errorf ''failed to fetch npm package version data: ''
                    (Foreign ''404 Not Found'') []), ErrNoPackagesPolled])) \<and>
   strings_Contains
     (Error (PackagePollError ''QuuxPackage''
               (Errorf ''failed to fetch npm package version data: ''
                  (Foreign ''404 Not Found'') []))) ''QuuxPackage'' \<and>
   strings_Contains
     (Error (PackagePollError ''QuuxPackage''
               (Errorf ''failed to fetch npm package version data: ''
                  (Foreign ''404 Not Found'') [])))
     ''failed to fetch npm package version data: 404 Not Found''"
proof -
  let ?cause = "Errorf ''failed to fetch npm package version data: '' (Foreign ''404 Not Found'') []"
  let ?w = "testEnv\<lparr>rss := RssDocument fooAndMissing\<rparr>"
  let ?list = "[''FooPackage'', ''QuuxPackage'']"
  let ?arrival = "[''QuuxPackage'', ''FooPackage'']"
  have cause: "\<not> errors_Is ?cause ErrUnpublished" by simp
  have failed: "fetchPackage ?w ''QuuxPackage'' = Returns (Inl ?cause)"
    by (simp add: fetchPackage_rss_update fetchPackage_other)
  have perm: "mset ?arrival = mset ?list" by simp
  have once: "count_list ?list ''QuuxPackage'' = 1" by simp
  have others: "\<forall>t\<in>set ?list. t \<noteq> ''QuuxPackage'' \<longrightarrow>
      fetchPackage testEnv t = Returns (Inr fooVersions)"
    by (simp add: fetchPackage_Foo fooVersions_def)
  have watch: "packages (watchFeed ?list) = Some ?list" by (simp add: watchFeed_def)
  have discovery: "packages discoveryFeed = None \<and> rss ?w = RssDocument fooAndMissing \<and>
      distinct ?arrival \<and> set ?arrival = set (map event_Title fooAndMissing) \<and>
      ''QuuxPackage'' \<in> set (map event_Title fooAndMissing) \<and>
      (\<forall>t\<in>set (map event_Title fooAndMissing). t \<noteq> ''QuuxPackage'' \<longrightarrow>
          fetchPackage ?w t = Returns (Inr fooVersions) \<and>
          count_list (map event_Title fooAndMissing) t \<le> length fooVersions)"
    by (auto simp: discoveryFeed_def fooAndMissing_def fetchPackage_rss_update fetchPackage_Foo
        fooVersions_def)
  have message: "Error ?cause = ''failed to fetch npm package version data: 404 Not Found''"
    by simp
  note watch_inst = one_failure_isolated [OF fetchPackage_other cause,
      where feed = "watchFeed ?list" and pkgList = ?list and arrival = ?arrival
        and vs = "\<lambda>t. fooVersions" and cutoff = 0]
  note discovery_inst = one_failure_isolated [OF failed cause,
      where feed = discoveryFeed and evs = fooAndMissing and arrival = ?arrival
        and vs = "\<lambda>t. fooVersions" and cutoff = 0]
  have hyps_watch: "packages (watchFeed ?list) = Some ?list \<and> mset ?arrival = mset ?list \<and>
      count_list ?list ''QuuxPackage'' = 1 \<and>
      (\<forall>t\<in>set ?list. t \<noteq> ''QuuxPackage'' \<longrightarrow> fetchPackage testEnv t = Returns (Inr fooVersions))"
    using watch perm once others by (intro conjI)
  have c1: "\<exists>errs. Latest testEnv (watchFeed ?list) ?arrival 0 =
        Returns (ApplyCutoff
                   (SliceStable (\<lambda>a b. feeds_CreatedDate b < feeds_CreatedDate a)
                      (concat (map (\<lambda>t. map release fooVersions)
                                 (filter (\<lambda>t. t \<noteq> ''QuuxPackage'') ?arrival))))
                   0, errs) \<and>
      (errs = [PackagePollError ''QuuxPackage'' ?cause] \<or>
       errs = [PackagePollError ''QuuxPackage'' ?cause, ErrNoPackagesPolled])"
    by (rule conjunct2 [OF mp [OF conjunct1 [OF watch_inst] hyps_watch]])
  have c2: "\<exists>errs. Latest ?w discoveryFeed ?arrival 0 =
        Returns (ApplyCutoff
                   (SliceStable (\<lambda>a b. feeds_CreatedDate b < feeds_CreatedDate a)
                      (concat (map (\<lambda>t. map release
                                           (take (count_list (map event_Title fooAndMissing) t)
                                              fooVersions))
                                 (filter (\<lambda>t. t \<noteq> ''QuuxPackage'') ?arrival))))
                   0, errs) \<and>
      (errs = [PackagePollError ''QuuxPackage'' ?cause] \<or>
       errs = [PackagePollError ''QuuxPackage'' ?cause, ErrNoPackagesPolled])"
    by (rule conjunct2 [OF mp [OF conjunct1 [OF conjunct2 [OF discovery_inst]] discovery]])
  have c3: "strings_Contains (Error (PackagePollError ''QuuxPackage'' ?cause))
      ''QuuxPackage''"
    by (rule conjunct1 [OF conjunct2 [OF conjunct2 [OF watch_inst]]])
  have "strings_Contains (Error (PackagePollError ''QuuxPackage'' ?cause))
      (Error ?cause)"
    by (rule conjunct2 [OF conjunct2 [OF conjunct2 [OF watch_inst]]])
  then have c4: "strings_Contains (Error (PackagePollError ''QuuxPackage'' ?cause))
      ''failed to fetch npm package version data: 404 Not Found''"
    by (simp only: message)
  have foo: "fetchPackage testEnv ''FooPackage'' = Returns (Inr fooVersions)"
    by (simp add: fetchPackage_Foo fooVersions_def)
  show ?thesis
    by (intro conjI fetchPackage_other cause perm once foo c1 c2 c3 c4)
qed

section \<open>Uniqueness of name and version\<close>

text \<open>
  C5. Let the timestamp map of every document have pairwise different keys, as a Go map
  has, and let \<open>Latest\<close> return. In discovery mode, and in watch-list mode when no name
  occurs twice in the watch list, no two returned releases share both name and
  version.
\<close>

theorem unique_name_version:
  assumes "\<forall>t doc versions. registry w t = Document doc \<longrightarrow>
      map_of doc ''time'' = Some (JObject versions) \<longrightarrow> distinct (map fst versions)"
    and "Latest w feed arrival cutoff = Returns (out, errs)"
  shows "(packages feed = None \<and>
          (\<forall>evs. rss w = RssDocument evs \<longrightarrow>
              distinct arrival \<and> set arrival = set (map event_Title evs)) \<longrightarrow>
            distinct (map (\<lambda>e. (Name e, feeds_Version e)) out) \<and>
            (\<exists>pkgs errs'. fetchAllPackages w arrival = Returns (pkgs, errs') \<and>
               distinct (map (\<lambda>e. (Name e, feeds_Version e)) pkgs))) \<and>
         (packages feed = Some pkgList \<and> distinct pkgList \<and> mset arrival = mset pkgList \<longrightarrow>
            distinct (map (\<lambda>e. (Name e, feeds_Version e)) out) \<and>
            (\<exists>pkgs errs'. fetchCriticalPackages w pkgList arrival = Returns (pkgs, errs') \<and>
               distinct (map (\<lambda>e. (Name e, feeds_Version e)) pkgs)))"
    (is "(?discovery \<longrightarrow> ?discovered) \<and> (?watch_list \<longrightarrow> ?watched)")
proof -
  let ?key = "\<lambda>e. (Name e, feeds_Version e)"
  have discovered: ?discovered if hyps: ?discovery
  proof -
    from assms(2) obtain pkgs errs0
      where aggregate: "fetchAllPackages w arrival = Returns (pkgs, errs0)"
        and out: "out = ApplyCutoff (SliceStable (\<lambda>a b. feeds_CreatedDate b < feeds_CreatedDate a) pkgs) cutoff"
      by (rule Latest_Returns) (use hyps in simp)
    have collected: "distinct (map ?key pkgs)"
    proof (cases "\<exists>evs. rss w = RssDocument evs")
      case True
      then obtain evs where evs: "rss w = RssDocument evs" ..
      with hyps have arrival: "distinct arrival" "set arrival = set (map event_Title evs)"
        by simp_all
      let ?g = "\<lambda>t. map release (take (count_list (map event_Title evs) t) (resolved w t))"
      from fetchAllPackages_Returns(1) [OF evs arrival aggregate]
      have pkgs: "pkgs = concat (map ?g arrival)" .
      have "\<forall>t\<in>set arrival. \<forall>e\<in>set (?g t). Name e = t"
        by (auto simp: release_simps dest!: in_set_takeD dest: resolved_Title)
      with arrival(1) distinct_resolved [OF assms(1)] show ?thesis
        unfolding pkgs by (intro distinct_concat_names) simp_all
    next
      case False
      with aggregate fetchAllPackages_no_feed [of w arrival] show ?thesis
        by auto
    qed
    then have "distinct (map ?key out)"
      unfolding out by (rule distinct_output)
    moreover from aggregate collected
    have "\<exists>pkgs errs'. fetchAllPackages w arrival = Returns (pkgs, errs') \<and> distinct (map ?key pkgs)"
      by blast
    ultimately show ?thesis
      by (rule conjI)
  qed
  have watched: ?watched if hyps: ?watch_list
  proof -
    from assms(2) obtain pkgs errs0
      where aggregate: "fetchCriticalPackages w pkgList arrival = Returns (pkgs, errs0)"
        and out: "out = ApplyCutoff (SliceStable (\<lambda>a b. feeds_CreatedDate b < feeds_CreatedDate a) pkgs) cutoff"
      by (rule Latest_Returns) (use hyps in simp)
    from hyps have "mset arrival = mset pkgList" and "distinct pkgList"
      by simp_all
    from mset_eq_imp_distinct_iff [OF this(1)] this(2) have arrival: "distinct arrival"
      by (simp only:)
    let ?g = "\<lambda>t. map release (resolved w t)"
    from hyps aggregate have pkgs: "pkgs = concat (map ?g arrival)"
      by (auto intro: fetchCriticalPackages_Returns)
    have names: "\<forall>t\<in>set arrival. \<forall>e\<in>set (?g t). Name e = t"
      by (auto simp: release_simps dest: resolved_Title)
    have "distinct (map ?key (?g t))" for t
      using distinct_resolved [OF assms(1), of "length (resolved w t)" t] by simp
    with arrival names have collected: "distinct (map ?key pkgs)"
      unfolding pkgs by (intro distinct_concat_names) simp_all
    then have "distinct (map ?key out)"
      unfolding out by (rule distinct_output)
    moreover from aggregate collected
    have "\<exists>pkgs errs'. fetchCriticalPackages w pkgList arrival = Returns (pkgs, errs') \<and>
        distinct (map ?key pkgs)"
      by blast
    ultimately show ?thesis
      by (rule conjI)
  qed
  have "?discovery \<longrightarrow> ?discovered"
    by (rule impI) (rule discovered)
  moreover have "?watch_list \<longrightarrow> ?watched"
    by (rule impI) (rule watched)
  ultimately show ?thesis
    by (rule conjI)
qed

text \<open>
  With a name twice in the watch list, every release of that package is returned
  twice.
\<close>

theorem duplicate_watch_counterexample:
  "fetchCriticalPackages testEnv [''BarPackage'', ''BarPackage''] [''BarPackage'', ''BarPackage''] =
     Returns ([\<lparr>Name = ''BarPackage'', feeds_Version = ''0.5.0-alpha'',
                  feeds_CreatedDate = 1620753782, Type = ''npm''\<rparr>,
               \<lparr>Name = ''BarPackage'', feeds_Version = ''0.4.0'', feeds_CreatedDate = 1616420716,
                  Type = ''npm''\<rparr>,
               \<lparr>Name = ''BarPackage'', feeds_Version = ''0.5.0-alpha'',
                  feeds_CreatedDate = 1620753782, Type = ''npm''\<rparr>,
               \<lparr>Name = ''BarPackage'', feeds_Version = ''0.4.0'', feeds_CreatedDate = 1616420716,
                  Type = ''npm''\<rparr>], []) \<and>
   Latest testEnv (watchFeed [''BarPackage'', ''BarPackage'']) [''BarPackage'', ''BarPackage''] 0 =
     Returns ([\<lparr>Name = ''BarPackage'', feeds_Version = ''0.5.0-alpha'',
                  feeds_CreatedDate = 1620753782, Type = ''npm''\<rparr>,
               \<lparr>Name = ''BarPackage'', feeds_Version = ''0.5.0-alpha'',
                  feeds_CreatedDate = 1620753782, Type = ''npm''\<rparr>,
               \<lparr>Name = ''BarPackage'', feeds_Version = ''0.4.0'', feeds_CreatedDate = 1616420716,
                  Type = ''npm''\<rparr>,
               \<lparr>Name = ''BarPackage'', feeds_Version = ''0.4.0'', feeds_CreatedDate = 1616420716,
                  Type = ''npm''\<rparr>], [])"
  by (simp add: Latest_def watchFeed_def aggregation_defs SliceStable_def ApplyCutoff_def)

theorem unique_name_version_witness:
  "packages discoveryFeed = None \<and>
   rss testEnv = RssDocument npmLatestPackagesResponse \<and>
   distinct [''QuxPackage'', ''BazPackage'', ''BarPackage'', ''FooPackage''] \<and>
   set [''QuxPackage'', ''BazPackage'', ''BarPackage'', ''FooPackage'']
     = set (map event_Title npmLatestPackagesResponse) \<and>
   distinct (map (\<lambda>e. (Name e, feeds_Version e))
     [\<lparr>Name = ''FooPackage'', feeds_Version = ''1.0.1'', feeds_CreatedDate = 1620757921,
         Type = ''npm''\<rparr>,
      \<lparr>Name = ''BarPackage'', feeds_Version = ''0.5.0-alpha'',
         feeds_CreatedDate = 1620753782, Type = ''npm''\<rparr>,
      \<lparr>Name = ''BazPackage'', feeds_Version = ''1.1'', feeds_CreatedDate = 1620742785,
         Type = ''npm''\<rparr>,
      \<lparr>Name = ''BazPackage'', feeds_Version = ''1.0'', feeds_CreatedDate = 1620742712,
         Type = ''npm''\<rparr>]) \<and>
   packages (watchFeed [''FooPackage'', ''BarPackage'']) = Some [''FooPackage'', ''BarPackage''] \<and>
   distinct [''FooPackage'', ''BarPackage''] \<and>
   mset [''BarPackage'', ''FooPackage''] = mset [''FooPackage'', ''BarPackage''] \<and>
   distinct (map (\<lambda>e. (Name e, feeds_Version e))
     [\<lparr>Name = ''FooPackage'', feeds_Version = ''1.0.1'', feeds_CreatedDate = 1620757921,
         Type = ''npm''\<rparr>,
      \<lparr>Name = ''BarPackage'', feeds_Version = ''0.5.0-alpha'',
         feeds_CreatedDate = 1620753782, Type = ''npm''\<rparr>,
      \<lparr>Name = ''FooPackage'', feeds_Version = ''0.9.1'', feeds_CreatedDate = 1616476663,
         Type = ''npm''\<rparr>])"
proof -
  let ?arrival = "[''QuxPackage'', ''BazPackage'', ''BarPackage'', ''FooPackage'']"
  let ?list = "[''FooPackage'', ''BarPackage'']"
  have discovery: "packages discoveryFeed = None \<and>
      (\<forall>evs. rss testEnv = RssDocument evs \<longrightarrow>
         distinct ?arrival \<and> set ?arrival = set (map event_Title evs))"
    by (auto simp: discoveryFeed_def rss_testEnv npmLatestPackagesResponse_def)
  have watch: "packages (watchFeed ?list) = Some ?list \<and> distinct ?list \<and>
      mset [''BarPackage'', ''FooPackage''] = mset ?list"
    by (simp add: watchFeed_def)
  note discovery_inst = unique_name_version [OF testEnv_distinct_keys Latest_discovery_test]
  note watch_inst = unique_name_version [OF testEnv_distinct_keys Latest_watch_test,
      where pkgList = ?list]
  have feed: "packages discoveryFeed = None \<and>
      rss testEnv = RssDocument npmLatestPackagesResponse \<and> distinct ?arrival \<and>
      set ?arrival = set (map event_Title npmLatestPackagesResponse)"
    by (auto simp: discoveryFeed_def rss_testEnv npmLatestPackagesResponse_def)
  show ?thesis
    using feed watch
      conjunct1 [OF mp [OF conjunct1 [OF discovery_inst] discovery]]
      conjunct1 [OF mp [OF conjunct2 [OF watch_inst] watch]]
    by (intro conjI) (elim conjE, assumption)+
qed

section \<open>An empty watch list\<close>

text \<open>
  C10. The mode is chosen by \<open>packages feed\<close> being nil or not. With a watch list that
  is present and empty, whatever the registry, the feed, the cutoff and the schedule
  are, no goroutine's message is received, \<^verbatim>\<open>fetchCriticalPackages\<close> returns no
  release and no error, and \<open>Latest\<close> returns no release and the single error
  \<^verbatim>\<open>ErrNoPackagesPolled\<close>.
\<close>

theorem empty_watch_list:
  "packages feed = Some [] \<Longrightarrow>
     fetchCriticalPackages w [] arrival = Returns ([], []) \<and>
     Latest w feed arrival cutoff = Returns ([], [ErrNoPackagesPolled])"
  by (simp add: Latest_def fetchCriticalPackages_def)

theorem empty_watch_list_witness:
  "packages (watchFeed []) = Some [] \<and>
   fetchCriticalPackages testEnv [] [] = Returns ([], []) \<and>
   Latest testEnv (watchFeed []) [] 0 = Returns ([], [ErrNoPackagesPolled])"
  using empty_watch_list [of "watchFeed []" testEnv "[]" 0]
  by (simp add: watchFeed_def)

end
